theory Spec2Isabelle
  imports Main "HOL-Library.Char_ord" "HOL-Library.List_Lexorder"
begin

section \<open>Option-string parsing of virtinst/cli.py\<close>

text \<open>
  A shallow embedding of the compound option parser of \<^verbatim>\<open>virtinst/cli.py\<close>
  (the helpers from \<^verbatim>\<open>_raw_on_off_convert\<close> to
  \<^verbatim>\<open>VirtCLIParser.lookup_child_from_option_string\<close>).

  Strings are lists of 8-bit characters. Python's \<^verbatim>\<open>None\<close> is the
  \<open>None\<close> of an option type, or \<open>VNone\<close> among the values a converted
  argument can hold. A Python name with a leading underscore loses it here
  (\<^verbatim>\<open>_on_off_convert\<close> is \<open>on_off_convert\<close>). Every exception
  and every call of \<^verbatim>\<open>fail\<close> (which logs the message and leaves through
  \<^verbatim>\<open>sys.exit(1)\<close>) is a value of the type \<open>error\<close>.
\<close>

subsection \<open>Values and errors\<close>

datatype argval = VNone | VStr string | VBool bool

datatype error =
    NoValueSet string
      \<comment> \<open>RuntimeError: Option '<key>' had no value set.\<close>
  | MustBeYesOrNo string
      \<comment> \<open>fail: <key> must be 'yes' or 'no'\<close>
  | PropnameOrCbRequired
      \<comment> \<open>RuntimeError: programming error: propname or cb must be specified.\<close>
  | LookupCbNotSpecified string
      \<comment> \<open>RuntimeError: programming error: cliname=<cliname> propname is None but
          lookup cb is not specified.\<close>
  | DontKnowHowToMatch string
      \<comment> \<open>RuntimeError: Don't know how to match device type ... property '<key>'\<close>
  | DontKnowHowToClearxml string
      \<comment> \<open>RuntimeError: Don't know how to clearxml for <flag>\<close>
  | NoMember string
      \<comment> \<open>RuntimeError: programming error: obj=... does not have member=<propname>\<close>
  | UnknownOptions string "string list"
      \<comment> \<open>fail: Unknown <flag> options: <list of keys>\<close>
  | NoClosingQuotation
      \<comment> \<open>ValueError of shlex: No closing quotation\<close>
  | NoEscapedCharacter
      \<comment> \<open>ValueError of shlex: No escaped character\<close>
  | TypeError
      \<comment> \<open>TypeError: += of a str onto None\<close>
  | AttributeError string
  | KeyError string
  | IndexError
  | OptionError string string error
      \<comment> \<open>fail: Error: <flag> <optstr>: <the exception caught>\<close>

subsection \<open>Boolean normalisation\<close>

text \<open>
  \<^verbatim>\<open>str.lower\<close> on the letters A to Z; every other character is left as
  it is.
\<close>

definition lower_char :: "char \<Rightarrow> char" where
  "lower_char c =
     (case map_of (zip ''ABCDEFGHIJKLMNOPQRSTUVWXYZ'' ''abcdefghijklmnopqrstuvwxyz'') c of
        None \<Rightarrow> c
      | Some d \<Rightarrow> d)"

definition lower :: "string \<Rightarrow> string" where
  "lower s = map lower_char s"

definition tvalues :: "string list" where
  "tvalues = [''y'', ''yes'', ''1'', ''true'', ''t'', ''on'']"

definition fvalues :: "string list" where
  "fvalues = [''n'', ''no'', ''0'', ''false'', ''f'', ''off'']"

definition raw_on_off_convert :: "string option \<Rightarrow> bool option" where
  "raw_on_off_convert s =
     (let s' = lower (case s of None \<Rightarrow> [] | Some x \<Rightarrow> x)
      in if s' \<in> set tvalues then Some True
         else if s' \<in> set fvalues then Some False
         else None)"

definition on_off_convert :: "string \<Rightarrow> string option \<Rightarrow> error + bool option" where
  "on_off_convert key v =
     (case v of
        None \<Rightarrow> Inr None
      | Some s \<Rightarrow>
          (case raw_on_off_convert (Some s) of
             Some b \<Rightarrow> Inr (Some b)
           | None \<Rightarrow> Inl (MustBeYesOrNo key)))"

subsection \<open>The tokenizer\<close>

text \<open>
  \<^verbatim>\<open>parse_optstr_tuples\<close> iterates a \<^verbatim>\<open>shlex.shlex\<close> in POSIX
  mode whose only whitespace character is the comma, without comment characters and with
  \<^verbatim>\<open>whitespace_split\<close>. The lexer is the state machine of
  \<^verbatim>\<open>shlex.read_token\<close> of the Python standard library under these settings:
  the state \<^verbatim>\<open>' '\<close> is \<open>StWs\<close>, the word state \<^verbatim>\<open>'a'\<close> is
  \<open>StWord\<close>, a quote state carries its quote character, and the escape state carries
  the state it returns to (\<^verbatim>\<open>escapedstate\<close>: \<open>None\<close> for the word
  state, the quote character inside double quotes).
\<close>

datatype shstate = StWs | StWord | StQuote char | StEscape "char option"

definition whitespace :: string where
  "whitespace = '',''"

definition quotes :: string where
  "quotes = [CHR 0x27, CHR 0x22]"

definition escape :: string where
  "escape = [CHR 0x5C]"

definition escapedquotes :: string where
  "escapedquotes = [CHR 0x22]"

definition emit :: "string \<Rightarrow> error + string list \<Rightarrow> error + string list" where
  "emit tok r = (case r of Inl e \<Rightarrow> Inl e | Inr ts \<Rightarrow> Inr (tok # ts))"

text \<open>
  \<open>shlex_tokens st quoted token input\<close> is \<^verbatim>\<open>list(argsplitter)\<close>:
  the tokens that successive calls of \<^verbatim>\<open>read_token\<close> return until one
  returns \<^verbatim>\<open>None\<close> (the end-of-file token of POSIX mode), or the
  \<^verbatim>\<open>ValueError\<close> of an unterminated quotation or escape.
\<close>

fun shlex_tokens :: "shstate \<Rightarrow> bool \<Rightarrow> string \<Rightarrow> string \<Rightarrow> error + string list" where
  "shlex_tokens StWs quoted token [] =
     (if \<not> quoted \<and> token = [] then Inr [] else Inr [token])"
| "shlex_tokens StWs quoted token (c # cs) =
     (if c \<in> set whitespace then
        (if token \<noteq> [] \<or> quoted then emit token (shlex_tokens StWs False [] cs)
         else shlex_tokens StWs quoted token cs)
      else if c \<in> set escape then shlex_tokens (StEscape None) quoted token cs
      else if c \<in> set quotes then shlex_tokens (StQuote c) quoted token cs
      else shlex_tokens StWord quoted [c] cs)"
| "shlex_tokens StWord quoted token [] =
     (if \<not> quoted \<and> token = [] then Inr [] else Inr [token])"
| "shlex_tokens StWord quoted token (c # cs) =
     (if c \<in> set whitespace then
        (if token \<noteq> [] \<or> quoted then emit token (shlex_tokens StWs False [] cs)
         else shlex_tokens StWs quoted token cs)
      else if c \<in> set quotes then shlex_tokens (StQuote c) quoted token cs
      else if c \<in> set escape then shlex_tokens (StEscape None) quoted token cs
      else shlex_tokens StWord quoted (token @ [c]) cs)"
| "shlex_tokens (StQuote q) quoted token [] = Inl NoClosingQuotation"
| "shlex_tokens (StQuote q) quoted token (c # cs) =
     (if c = q then shlex_tokens StWord True token cs
      else if c \<in> set escape \<and> q \<in> set escapedquotes
        then shlex_tokens (StEscape (Some q)) True token cs
      else shlex_tokens (StQuote q) True (token @ [c]) cs)"
| "shlex_tokens (StEscape es) quoted token [] = Inl NoEscapedCharacter"
| "shlex_tokens (StEscape es) quoted token (c # cs) =
     (case es of
        None \<Rightarrow> shlex_tokens StWord quoted (token @ [c]) cs
      | Some q \<Rightarrow>
          shlex_tokens (StQuote q) quoted
            ((if c \<notin> set escape \<and> c \<noteq> q then token @ escape else token) @ [c]) cs)"

text \<open>
  \<^verbatim>\<open>cliname, val = opt.split("=", 1)\<close> when the token holds an equals sign,
  \<^verbatim>\<open>(opt, None)\<close> otherwise.
\<close>

definition split_opt :: "string \<Rightarrow> string \<times> string option" where
  "split_opt opt =
     (if CHR ''='' \<in> set opt
      then (takeWhile (\<lambda>c. c \<noteq> CHR ''='') opt, Some (tl (dropWhile (\<lambda>c. c \<noteq> CHR ''='') opt)))
      else (opt, None))"

text \<open>
  \<^verbatim>\<open>parse_optstr_tuples(optstr)\<close>; the argument is
  \<^verbatim>\<open>optstr or ""\<close>, so \<^verbatim>\<open>None\<close> is the empty string here.
  Empty tokens are skipped.
\<close>

definition parse_optstr_tuples :: "string \<Rightarrow> error + (string \<times> string option) list" where
  "parse_optstr_tuples optstr =
     (case shlex_tokens StWs False [] optstr of
        Inl e \<Rightarrow> Inl e
      | Inr opts \<Rightarrow> Inr (map split_opt (filter (\<lambda>opt. opt \<noteq> []) opts)))"

subsection \<open>The object graph\<close>

text \<open>
  Modelled from the spec: the target object graph (the XML builder classes and
  \<^verbatim>\<open>virtinst/util.py\<close> are not part of the parser's file). The spec
  gives the graph three capabilities: path-based get and set of attributes, a
  "create new child and return it" operation for a repeating collection, and the
  collection's current length. An object holds its attributes, keyed by the attribute
  path, and its repeating collections, keyed by the property name; a collection holds
  the default entry that \<^verbatim>\<open>add_new()\<close> appends, and its entries.
  Reading a path the object does not have is \<^verbatim>\<open>AttributeError\<close>.
\<close>

datatype xmlobj = XMLObj (props: "(string \<times> argval) list") (childlists: "(string \<times> childlist) list")
  and childlist = ChildList (template: xmlobj) (entries: "xmlobj list")

text \<open>Item assignment of an ordered dictionary: an existing key keeps its place.\<close>

fun odict_set :: "'k \<Rightarrow> 'v \<Rightarrow> ('k \<times> 'v) list \<Rightarrow> ('k \<times> 'v) list" where
  "odict_set k v [] = [(k, v)]"
| "odict_set k v (kv # r) = (if fst kv = k then (k, v) # r else kv # odict_set k v r)"

fun odict_del :: "'k \<Rightarrow> ('k \<times> 'v) list \<Rightarrow> ('k \<times> 'v) list" where
  "odict_del k [] = []"
| "odict_del k (kv # r) = (if fst kv = k then r else kv # odict_del k r)"

definition get_prop_path :: "xmlobj \<Rightarrow> string \<Rightarrow> error + argval" where
  "get_prop_path obj path =
     (case map_of (props obj) path of
        None \<Rightarrow> Inl (AttributeError path)
      | Some v \<Rightarrow> Inr v)"

definition set_prop_path :: "xmlobj \<Rightarrow> string \<Rightarrow> argval \<Rightarrow> xmlobj" where
  "set_prop_path obj path v = XMLObj (odict_set path v (props obj)) (childlists obj)"

definition add_new :: "childlist \<Rightarrow> childlist" where
  "add_new cl = ChildList (template cl) (entries cl @ [template cl])"

text \<open>
  Modelled from the spec: \<^verbatim>\<open>inst.clear(leave_stub=...)\<close> of the XML
  builder, the "clear existing configuration" operation: every attribute becomes unset
  and every repeating collection empty. The stub element that
  \<^verbatim>\<open>leave_stub\<close> keeps belongs to the XML document, which this model does
  not hold.
\<close>

definition clear :: "bool \<Rightarrow> xmlobj \<Rightarrow> xmlobj" where
  "clear leave_stub obj =
     XMLObj (map (\<lambda>kv. (fst kv, VNone)) (props obj))
            (map (\<lambda>kl. (fst kl, ChildList (template (snd kl)) [])) (childlists obj))"

subsection \<open>Argument descriptors\<close>

record VirtCLIParser =
  optstr :: string
  guest_propname :: "string option"
  cli_arg_name :: string

text \<open>
  A callback \<^verbatim>\<open>cb(parser, inst, val, virtarg)\<close> receives the parser, the
  object, the converted value and, of the argument, its key; it returns the object as it
  left it, or raises. A lookup callback returns the result of the comparison.
\<close>

type_synonym cb_t = "VirtCLIParser \<Rightarrow> xmlobj \<Rightarrow> argval \<Rightarrow> string \<Rightarrow> error + xmlobj"

type_synonym lookup_cb_t = "VirtCLIParser \<Rightarrow> xmlobj \<Rightarrow> argval \<Rightarrow> string \<Rightarrow> bool"

text \<open>
  The \<^verbatim>\<open>lookup_cb\<close> parameter: \<open>Unspecified\<close> is the default
  \<^verbatim>\<open>-1\<close>, \<open>NoLookup\<close> an explicit \<^verbatim>\<open>None\<close>.
\<close>

datatype lookup_cb_v = Unspecified | NoLookup | Lookup lookup_cb_t

text \<open>
  \<^verbatim>\<open>aliases\<close> holds \<^verbatim>\<open>util.listify(aliases)\<close>: the empty list
  for \<^verbatim>\<open>None\<close>. \<^verbatim>\<open>can_comma\<close> is read for its truth value
  only, so its default \<^verbatim>\<open>None\<close> is \<open>False\<close>. A
  \<^verbatim>\<open>find_inst_cb\<close> is one that \<^verbatim>\<open>_make_find_inst_cb\<close>
  builds, given by its two parameters \<^verbatim>\<open>(cliarg, list_propname)\<close>.
\<close>

record VirtCLIArgumentStatic =
  cliname :: string
  propname :: "string option"
  cb :: "cb_t option"
  can_comma :: bool
  ignore_default :: bool
  aliases :: "string list"
  is_onoff :: bool
  lookup_cb :: lookup_cb_v
  find_inst_cb :: "(string \<times> string) option"

text \<open>Python's truth value of a string or \<^verbatim>\<open>None\<close>.\<close>

definition truthy :: "string option \<Rightarrow> bool" where
  "truthy s = (case s of None \<Rightarrow> False | Some x \<Rightarrow> x \<noteq> [])"

text \<open>
  \<^verbatim>\<open>_VirtCLIArgumentStatic.__init__\<close>: the record holds the fields as the
  constructor first assigns them; the result is the descriptor, or the programming error.
\<close>

definition VirtCLIArgumentStatic_init :: "VirtCLIArgumentStatic \<Rightarrow> error + VirtCLIArgumentStatic" where
  "VirtCLIArgumentStatic_init self =
     (if \<not> truthy (propname self) \<and> (case cb self of None \<Rightarrow> True | Some f \<Rightarrow> False)
        then Inl PropnameOrCbRequired
      else if \<not> truthy (propname self)
              \<and> (case lookup_cb self of Unspecified \<Rightarrow> True | NoLookup \<Rightarrow> False | Lookup f \<Rightarrow> False)
        then Inl (LookupCbNotSpecified (cliname self))
      else Inr (self\<lparr>lookup_cb :=
                  (case lookup_cb self of Unspecified \<Rightarrow> NoLookup | NoLookup \<Rightarrow> NoLookup
                   | Lookup f \<Rightarrow> Lookup f)\<rparr>))"

text \<open>
  \<^verbatim>\<open>match_name\<close>: \<open>rm\<close> stands for \<^verbatim>\<open>re.match\<close> of the
  Python standard library, as the truth value of its result.
\<close>

definition match_name :: "(string \<Rightarrow> string \<Rightarrow> bool) \<Rightarrow> VirtCLIArgumentStatic \<Rightarrow> string \<Rightarrow> bool" where
  "match_name rm self name =
     list_ex (\<lambda>argname. rm (''^'' @ argname @ ''$'') name) ([cliname self] @ aliases self)"

text \<open>
  A matcher for the patterns the parser's descriptors are written in: literal characters,
  the dot, a bracketed range such as \<^verbatim>\<open>[0-9]\<close>, each possibly starred,
  between \<^verbatim>\<open>^\<close> and \<^verbatim>\<open>$\<close>. The dot matches any character
  but the newline, and \<^verbatim>\<open>$\<close> matches at the end of the name or before a
  newline that ends it. A pattern outside this fragment matches nothing here.
\<close>

datatype re_atom = Lit char | AnyChar | Range char char

datatype re_item = One re_atom | Star re_atom

definition re_meta :: string where
  "re_meta = [CHR ''.'', CHR ''^'', CHR ''$'', CHR ''*'', CHR ''+'', CHR ''?'', CHR ''{'', CHR ''}'',
              CHR ''['', CHR '']'', CHR 0x5C, CHR ''|'', CHR ''('', CHR '')'']"

fun re_starred :: "re_atom \<Rightarrow> string \<Rightarrow> re_item \<times> string" where
  "re_starred a [] = (One a, [])"
| "re_starred a (c # cs) = (if c = CHR ''*'' then (Star a, cs) else (One a, c # cs))"

lemma re_starred_length: "length (snd (re_starred a r)) \<le> length r"
  by (cases r) auto

function re_parse :: "string \<Rightarrow> re_item list option" where
  "re_parse [] = Some []"
| "re_parse (c # cs) =
     (if c = CHR ''['' then
        (case cs of
           lo # d # hi # e # r \<Rightarrow>
             (if d = CHR ''-'' \<and> e = CHR '']'' then
                (case re_parse (snd (re_starred (Range lo hi) r)) of
                   None \<Rightarrow> None
                 | Some items \<Rightarrow> Some (fst (re_starred (Range lo hi) r) # items))
              else None)
         | _ \<Rightarrow> None)
      else if c = CHR ''.'' then
        (case re_parse (snd (re_starred AnyChar cs)) of
           None \<Rightarrow> None
         | Some items \<Rightarrow> Some (fst (re_starred AnyChar cs) # items))
      else if c \<in> set re_meta then None
      else
        (case re_parse (snd (re_starred (Lit c) cs)) of
           None \<Rightarrow> None
         | Some items \<Rightarrow> Some (fst (re_starred (Lit c) cs) # items)))"
  by pat_completeness auto
termination
  by (relation "measure length") (auto intro: le_less_trans [OF re_starred_length])

fun re_atom_ok :: "re_atom \<Rightarrow> char \<Rightarrow> bool" where
  "re_atom_ok (Lit l) c = (c = l)"
| "re_atom_ok AnyChar c = (c \<noteq> CHR 0x0A)"
| "re_atom_ok (Range lo hi) c = (lo \<le> c \<and> c \<le> hi)"

fun re_items :: "re_item list \<Rightarrow> string \<Rightarrow> bool" where
  "re_items [] s = (s = [] \<or> s = [CHR 0x0A])"
| "re_items (One a # r) [] = False"
| "re_items (One a # r) (c # cs) = (re_atom_ok a c \<and> re_items r cs)"
| "re_items (Star a # r) [] = re_items r []"
| "re_items (Star a # r) (c # cs) =
     (re_items r (c # cs) \<or> (re_atom_ok a c \<and> re_items (Star a # r) cs))"

definition re_match :: "string \<Rightarrow> string \<Rightarrow> bool" where
  "re_match pat s =
     (case pat of
        [] \<Rightarrow> False
      | c # r \<Rightarrow>
          (if c = CHR ''^'' \<and> r \<noteq> [] \<and> last r = CHR ''$'' then
             (case re_parse (butlast r) of None \<Rightarrow> False | Some items \<Rightarrow> re_items items s)
           else False))"

subsection \<open>Arguments with their values\<close>

record VirtCLIArgument =
  val :: argval
  key :: string
  virtarg :: VirtCLIArgumentStatic

text \<open>
  \<^verbatim>\<open>_VirtCLIArgument.__init__(virtarg, key, val)\<close>. The two fields the
  source copies "for convenience" are read through \<open>virtarg\<close> here.
\<close>

definition VirtCLIArgument_init :: "VirtCLIArgumentStatic \<Rightarrow> string \<Rightarrow> string option \<Rightarrow> error + VirtCLIArgument" where
  "VirtCLIArgument_init va k v =
     (case v of
        None \<Rightarrow> Inl (NoValueSet k)
      | Some s \<Rightarrow>
          (let v' = (if s = [] then None else Some s) in
           if is_onoff va then
             (case on_off_convert k v' of
                Inl e \<Rightarrow> Inl e
              | Inr b \<Rightarrow>
                  Inr \<lparr>val = (case b of None \<Rightarrow> VNone | Some t \<Rightarrow> VBool t), key = k, virtarg = va\<rparr>)
           else
             Inr \<lparr>val = (case v' of None \<Rightarrow> VNone | Some t \<Rightarrow> VStr t), key = k, virtarg = va\<rparr>))"

subsection \<open>Indexed sub-objects\<close>

definition digits :: string where
  "digits = ''0123456789''"

definition digit_val :: "char \<Rightarrow> nat" where
  "digit_val c = (case map_of (zip digits [0, 1, 2, 3, 4, 5, 6, 7, 8, 9]) c of None \<Rightarrow> 0 | Some n \<Rightarrow> n)"

text \<open>\<^verbatim>\<open>int\<close> of a string of decimal digits.\<close>

definition int_of_digits :: "string \<Rightarrow> nat" where
  "int_of_digits ds = foldl (\<lambda>n d. 10 * n + digit_val d) 0 ds"

text \<open>
  \<^verbatim>\<open>re.search(r"%s(\d+)" % cliarg, key)\<close> and the integer of its group,
  for a \<^verbatim>\<open>cliarg\<close> of literal characters (the source passes
  \<^verbatim>\<open>cell\<close>, \<^verbatim>\<open>sibling\<close>, \<^verbatim>\<open>seclabel\<close> and the
  like): the leftmost place where \<^verbatim>\<open>cliarg\<close> stands before a digit, and
  the longest run of digits there.
\<close>

fun search_index :: "string \<Rightarrow> string \<Rightarrow> nat option" where
  "search_index cliarg [] = None"
| "search_index cliarg (c # cs) =
     (if take (length cliarg) (c # cs) = cliarg
         \<and> takeWhile (\<lambda>d. d \<in> set digits) (drop (length cliarg) (c # cs)) \<noteq> []
      then Some (int_of_digits (takeWhile (\<lambda>d. d \<in> set digits) (drop (length cliarg) (c # cs))))
      else search_index cliarg cs)"

text \<open>
  \<^verbatim>\<open>while len(getattr(inst, list_propname)) < (num + 1):
  getattr(inst, list_propname).add_new()\<close>
\<close>

function grow :: "childlist \<Rightarrow> nat \<Rightarrow> childlist" where
  "grow cl n = (if length (entries cl) < n then grow (add_new cl) n else cl)"
  by pat_completeness auto
termination
  by (relation "measure (\<lambda>(cl, n). n - length (entries cl))") (auto simp: add_new_def)

text \<open>
  The callback that \<^verbatim>\<open>_make_find_inst_cb(cliarg, list_propname)\<close> returns,
  applied to \<^verbatim>\<open>(inst, val, virtarg, can_edit)\<close>. The Python callback
  returns the entry itself, an object inside \<^verbatim>\<open>inst\<close>; here it returns
  \<^verbatim>\<open>inst\<close> as the callback left it and the index of the entry, or
  \<open>None\<close> where the callback returns \<^verbatim>\<open>None\<close>.
\<close>

definition make_find_inst_cb :: "string \<Rightarrow> string \<Rightarrow> xmlobj \<Rightarrow> string \<Rightarrow> bool \<Rightarrow> error + (xmlobj \<times> nat option)" where
  "make_find_inst_cb cliarg list_propname inst k can_edit =
     (let num = (case search_index cliarg k of None \<Rightarrow> 0 | Some n \<Rightarrow> n) in
      case map_of (childlists inst) list_propname of
        None \<Rightarrow> Inl (AttributeError list_propname)
      | Some cl \<Rightarrow>
          (let inst' = (if can_edit
                        then XMLObj (props inst)
                               (odict_set list_propname (grow cl (num + 1)) (childlists inst))
                        else inst);
               cl' = (if can_edit then grow cl (num + 1) else cl)
           in if num < length (entries cl') then Inr (inst', Some num)
              else if \<not> can_edit then Inr (inst', None)
              else Inl IndexError))"

text \<open>Writing an entry of a repeating collection back into its object.\<close>

definition set_entry :: "xmlobj \<Rightarrow> string \<Rightarrow> nat \<Rightarrow> xmlobj \<Rightarrow> xmlobj" where
  "set_entry inst list_propname num entry =
     (case map_of (childlists inst) list_propname of
        None \<Rightarrow> inst
      | Some cl \<Rightarrow>
          XMLObj (props inst)
            (odict_set list_propname (ChildList (template cl) ((entries cl)[num := entry]))
               (childlists inst)))"

definition get_entry :: "xmlobj \<Rightarrow> string \<Rightarrow> nat \<Rightarrow> error + xmlobj" where
  "get_entry inst list_propname num =
     (case map_of (childlists inst) list_propname of
        None \<Rightarrow> Inl (AttributeError list_propname)
      | Some cl \<Rightarrow> if num < length (entries cl) then Inr (entries cl ! num) else Inl IndexError)"

subsection \<open>Binding one argument\<close>

text \<open>
  The part of \<^verbatim>\<open>parse_param\<close> after the object is resolved: the check that
  the attribute exists, then the callback or the assignment. In \<open>parse_param\<close> the
  callback is called with \<^verbatim>\<open>can_edit\<close> set, so it returns an entry or
  raises; the branch for \<open>None\<close> is never taken.
\<close>

definition assign_param :: "VirtCLIParser \<Rightarrow> VirtCLIArgument \<Rightarrow> xmlobj \<Rightarrow> error + xmlobj" where
  "assign_param parser self inst =
     (case (if truthy (propname (virtarg self))
            then (case get_prop_path inst (the (propname (virtarg self))) of
                    Inl e \<Rightarrow> Inl (NoMember (the (propname (virtarg self))))
                  | Inr v \<Rightarrow> Inr ())
            else Inr ()) of
        Inl e \<Rightarrow> Inl e
      | Inr u \<Rightarrow>
          (case cb (virtarg self) of
             Some f \<Rightarrow> f parser inst (val self) (key self)
           | None \<Rightarrow>
               (case propname (virtarg self) of
                  None \<Rightarrow> Inl (AttributeError [])
                | Some p \<Rightarrow> Inr (set_prop_path inst p (val self)))))"

definition parse_param :: "VirtCLIArgument \<Rightarrow> VirtCLIParser \<Rightarrow> xmlobj \<Rightarrow> error + xmlobj" where
  "parse_param self parser inst =
     (if val self = VStr ''default'' \<and> ignore_default (virtarg self) then Inr inst
      else
        (case find_inst_cb (virtarg self) of
           None \<Rightarrow> assign_param parser self inst
         | Some (cliarg, list_propname) \<Rightarrow>
             (case make_find_inst_cb cliarg list_propname inst (key self) True of
                Inl e \<Rightarrow> Inl e
              | Inr (inst', None) \<Rightarrow> Inl TypeError
              | Inr (inst', Some num) \<Rightarrow>
                  (case get_entry inst' list_propname num of
                     Inl e \<Rightarrow> Inl e
                   | Inr entry \<Rightarrow>
                       (case assign_param parser self entry of
                          Inl e \<Rightarrow> Inl e
                        | Inr entry' \<Rightarrow> Inr (set_entry inst' list_propname num entry'))))))"

text \<open>
  The part of \<^verbatim>\<open>lookup_param\<close> after the object is resolved.
\<close>

definition compare_param :: "VirtCLIParser \<Rightarrow> VirtCLIArgument \<Rightarrow> xmlobj \<Rightarrow> error + bool" where
  "compare_param parser self inst =
     (case lookup_cb (virtarg self) of
        Lookup f \<Rightarrow> Inr (f parser inst (val self) (key self))
      | Unspecified \<Rightarrow> Inl TypeError
      | NoLookup \<Rightarrow>
          (case propname (virtarg self) of
             None \<Rightarrow> Inl (AttributeError [])
           | Some p \<Rightarrow>
               (case get_prop_path inst p of
                  Inl e \<Rightarrow> Inl e
                | Inr v \<Rightarrow> Inr (v = val self))))"

text \<open>
  \<^verbatim>\<open>lookup_param\<close> returns the object too, as the lookup left it.
\<close>

definition lookup_param :: "VirtCLIArgument \<Rightarrow> VirtCLIParser \<Rightarrow> xmlobj \<Rightarrow> error + (bool \<times> xmlobj)" where
  "lookup_param self parser inst =
     (if \<not> truthy (propname (virtarg self))
         \<and> (case lookup_cb (virtarg self) of NoLookup \<Rightarrow> True | Unspecified \<Rightarrow> False | Lookup f \<Rightarrow> False)
      then Inl (DontKnowHowToMatch (key self))
      else
        (case find_inst_cb (virtarg self) of
           None \<Rightarrow>
             (case compare_param parser self inst of
                Inl e \<Rightarrow> Inl e
              | Inr b \<Rightarrow> Inr (b, inst))
         | Some (cliarg, list_propname) \<Rightarrow>
             (case make_find_inst_cb cliarg list_propname inst (key self) False of
                Inl e \<Rightarrow> Inl e
              | Inr (inst', None) \<Rightarrow> Inr (False, inst')
              | Inr (inst', Some num) \<Rightarrow>
                  (case get_entry inst' list_propname num of
                     Inl e \<Rightarrow> Inl e
                   | Inr entry \<Rightarrow>
                       (case compare_param parser self entry of
                          Inl e \<Rightarrow> Inl e
                        | Inr b \<Rightarrow> Inr (b, inst'))))))"

subsection \<open>The descriptor registry\<close>

definition cli_flag_name :: "VirtCLIParser \<Rightarrow> string" where
  "cli_flag_name parser = ''--'' @ map (\<lambda>c. if c = CHR ''_'' then CHR ''-'' else c) (cli_arg_name parser)"

text \<open>\<^verbatim>\<open>VirtCLIParser._clearxml_cb\<close>\<close>

definition clearxml_cb :: cb_t where
  "clearxml_cb parser inst v k =
     (if \<not> truthy (guest_propname parser) then Inl (DontKnowHowToClearxml (cli_flag_name parser))
      else if v \<noteq> VBool True then Inr inst
      else Inr (clear (CHR '','' \<in> set (optstr parser)) inst))"

definition clearxml_args :: VirtCLIArgumentStatic where
  "clearxml_args =
     \<lparr>cliname = ''clearxml'', propname = None, cb = Some clearxml_cb, can_comma = False,
      ignore_default = False, aliases = [], is_onoff = True, lookup_cb = NoLookup,
      find_inst_cb = None\<rparr>"

text \<open>
  \<^verbatim>\<open>VirtCLIParser.add_arg\<close>: the registry \<^verbatim>\<open>cls._virtargs\<close> is
  passed in and returned; \<open>args\<close> holds the arguments of the call.
\<close>

definition add_arg :: "VirtCLIArgumentStatic list \<Rightarrow> VirtCLIArgumentStatic \<Rightarrow> error + VirtCLIArgumentStatic list" where
  "add_arg virtargs args =
     (case (if virtargs = [] then
              (case VirtCLIArgumentStatic_init clearxml_args of
                 Inl e \<Rightarrow> Inl e
               | Inr c \<Rightarrow> Inr [c])
            else Inr virtargs) of
        Inl e \<Rightarrow> Inl e
      | Inr vs \<Rightarrow>
          (case VirtCLIArgumentStatic_init args of
             Inl e \<Rightarrow> Inl e
           | Inr d \<Rightarrow> Inr (vs @ [d])))"

text \<open>The calls of \<^verbatim>\<open>add_arg\<close> that a class makes in \<^verbatim>\<open>_init_class\<close>, in order.\<close>

fun add_args :: "VirtCLIArgumentStatic list \<Rightarrow> VirtCLIArgumentStatic list \<Rightarrow> error + VirtCLIArgumentStatic list" where
  "add_args virtargs [] = Inr virtargs"
| "add_args virtargs (a # as) =
     (case add_arg virtargs a of
        Inl e \<Rightarrow> Inl e
      | Inr vs \<Rightarrow> add_args vs as)"

text \<open>
  \<^verbatim>\<open>print_introspection\<close>: the lines printed. Python compares strings by
  code point, which is the lexicographic order of the characters here, and its
  \<^verbatim>\<open>sorted\<close> is stable, as \<open>sort_key\<close> is.
\<close>

definition startswith :: "string \<Rightarrow> string \<Rightarrow> bool" where
  "startswith s p = (take (length p) s = p)"

definition sortkey :: "VirtCLIArgumentStatic \<Rightarrow> string" where
  "sortkey va =
     (let prefix = [];
          prefix = (if cliname va = ''clearxml'' then ''0'' else prefix);
          prefix = (if startswith (cliname va) ''address.'' then ''1'' else prefix)
      in prefix @ cliname va)"

definition introspection_names :: "VirtCLIArgumentStatic list \<Rightarrow> string list" where
  "introspection_names virtargs = map cliname (sort_key sortkey virtargs)"

definition print_introspection :: "VirtCLIParser \<Rightarrow> VirtCLIArgumentStatic list \<Rightarrow> string list" where
  "print_introspection parser virtargs =
     [cli_flag_name parser @ '' options:'']
     @ map (\<lambda>name. ''  '' @ name) (introspection_names virtargs)
     @ [[]]"

subsection \<open>The dictionary builder\<close>

text \<open>\<^verbatim>\<open>_lookup_virtarg\<close>: the first descriptor that matches, or \<^verbatim>\<open>None\<close>.\<close>

definition lookup_virtarg :: "(string \<Rightarrow> string \<Rightarrow> bool) \<Rightarrow> VirtCLIArgumentStatic list \<Rightarrow> string \<Rightarrow> VirtCLIArgumentStatic option" where
  "lookup_virtarg rm virtargs name = find (\<lambda>va. match_name rm va name) virtargs"

text \<open>
  \<^verbatim>\<open>_consume_comma_arg(commaopt)\<close>: the tuples still to read are passed in
  and returned with \<^verbatim>\<open>commaopt\<close>. Appending to a value that is
  \<^verbatim>\<open>None\<close> is a \<^verbatim>\<open>TypeError\<close>.
\<close>

fun consume_comma_arg :: "(string \<Rightarrow> string \<Rightarrow> bool) \<Rightarrow> VirtCLIArgumentStatic list \<Rightarrow> string \<times> string option \<Rightarrow> (string \<times> string option) list \<Rightarrow> error + ((string \<times> string option) \<times> (string \<times> string option) list)" where
  "consume_comma_arg rm virtargs commaopt [] = Inr (commaopt, [])"
| "consume_comma_arg rm virtargs commaopt ((name, v) # opttuples) =
     (case lookup_virtarg rm virtargs name of
        Some va \<Rightarrow> Inr (commaopt, (name, v) # opttuples)
      | None \<Rightarrow>
          (case snd commaopt of
             None \<Rightarrow> Inl TypeError
           | Some cur \<Rightarrow>
               consume_comma_arg rm virtargs
                 (fst commaopt,
                  Some (cur @ '','' @ name @ (if truthy v then ''='' @ the v else [])))
                 opttuples))"

text \<open>The loop that splices the \<^verbatim>\<open>remove_first\<close> names in.\<close>

fun splice_remove_first :: "(string \<times> string option) list \<Rightarrow> string list \<Rightarrow> (string \<times> string option) list" where
  "splice_remove_first [] remove_first = []"
| "splice_remove_first ((name, v) # opttuples) remove_first =
     (case remove_first of
        [] \<Rightarrow> (name, v) # opttuples
      | r # rs \<Rightarrow>
          (case v of
             Some x \<Rightarrow> (name, v) # opttuples
           | None \<Rightarrow> (r, Some name) # splice_remove_first opttuples rs))"

lemma consume_comma_arg_length:
  "consume_comma_arg rm virtargs commaopt opttuples = Inr (commaopt', rest)
   \<Longrightarrow> length rest \<le> length opttuples"
proof (induction opttuples arbitrary: commaopt)
  case Nil
  then show ?case by simp
next
  case (Cons t ts)
  obtain name v where t: "t = (name, v)" by (cases t)
  show ?case
  proof (cases "lookup_virtarg rm virtargs name")
    case None
    with Cons.prems t obtain cur where "snd commaopt = Some cur"
      by (cases "snd commaopt") auto
    with Cons.prems t None have "length rest \<le> length ts"
      using Cons.IH by auto
    then show ?thesis by simp
  next
    case (Some va)
    with Cons.prems t show ?thesis by auto
  qed
qed

text \<open>The main loop of \<^verbatim>\<open>_parse_optstr_to_dict\<close>.\<close>

function dict_loop :: "(string \<Rightarrow> string \<Rightarrow> bool) \<Rightarrow> VirtCLIArgumentStatic list \<Rightarrow> (string \<times> string option) list \<Rightarrow> (string \<times> string option) list \<Rightarrow> error + (string \<times> string option) list" where
  "dict_loop rm virtargs optdict [] = Inr optdict"
| "dict_loop rm virtargs optdict ((name, v) # opttuples) =
     (case lookup_virtarg rm virtargs name of
        None \<Rightarrow> dict_loop rm virtargs (odict_set name v optdict) opttuples
      | Some va \<Rightarrow>
          (if can_comma va then
             (case consume_comma_arg rm virtargs (name, v) opttuples of
                Inl e \<Rightarrow> Inl e
              | Inr (commaopt, rest) \<Rightarrow>
                  dict_loop rm virtargs (odict_set (fst commaopt) (snd commaopt) optdict) rest)
           else dict_loop rm virtargs (odict_set name v optdict) opttuples))"
  by pat_completeness auto
termination
  by (relation "measure (\<lambda>(rm, virtargs, optdict, opttuples). length opttuples)")
     (auto dest: consume_comma_arg_length)

definition parse_optstr_to_dict :: "(string \<Rightarrow> string \<Rightarrow> bool) \<Rightarrow> string \<Rightarrow> VirtCLIArgumentStatic list \<Rightarrow> string list \<Rightarrow> error + (string \<times> string option) list" where
  "parse_optstr_to_dict rm optstring virtargs remove_first =
     (case parse_optstr_tuples optstring of
        Inl e \<Rightarrow> Inl e
      | Inr opttuples \<Rightarrow> dict_loop rm virtargs [] (splice_remove_first opttuples remove_first))"

subsection \<open>The binder\<close>

text \<open>
  The inner loop of \<^verbatim>\<open>_optdict_to_param_list\<close> for one descriptor, over
  \<^verbatim>\<open>list(optdict.keys())\<close>; \<^verbatim>\<open>optdict.pop(key)\<close> takes the
  entry out before the argument is built.
\<close>

fun claim_keys :: "(string \<Rightarrow> string \<Rightarrow> bool) \<Rightarrow> VirtCLIArgumentStatic \<Rightarrow> string list \<Rightarrow> (string \<times> string option) list \<Rightarrow> error + (VirtCLIArgument list \<times> (string \<times> string option) list)" where
  "claim_keys rm va [] optdict = Inr ([], optdict)"
| "claim_keys rm va (k # ks) optdict =
     (if match_name rm va k then
        (case map_of optdict k of
           None \<Rightarrow> Inl (KeyError k)
         | Some v \<Rightarrow>
             (case VirtCLIArgument_init va k v of
                Inl e \<Rightarrow> Inl e
              | Inr arginst \<Rightarrow>
                  (case claim_keys rm va ks (odict_del k optdict) of
                     Inl e \<Rightarrow> Inl e
                   | Inr (ret, optdict') \<Rightarrow> Inr (arginst # ret, optdict'))))
      else claim_keys rm va ks optdict)"

text \<open>
  \<^verbatim>\<open>_optdict_to_param_list\<close>: the arguments built, and the dictionary as the
  loop left it.
\<close>

fun optdict_to_param_list :: "(string \<Rightarrow> string \<Rightarrow> bool) \<Rightarrow> VirtCLIArgumentStatic list \<Rightarrow> (string \<times> string option) list \<Rightarrow> error + (VirtCLIArgument list \<times> (string \<times> string option) list)" where
  "optdict_to_param_list rm [] optdict = Inr ([], optdict)"
| "optdict_to_param_list rm (va # virtargs) optdict =
     (case claim_keys rm va (map fst optdict) optdict of
        Inl e \<Rightarrow> Inl e
      | Inr (ret, optdict') \<Rightarrow>
          (case optdict_to_param_list rm virtargs optdict' of
             Inl e \<Rightarrow> Inl e
           | Inr (ret', optdict'') \<Rightarrow> Inr (ret @ ret', optdict'')))"

definition check_leftover_opts :: "VirtCLIParser \<Rightarrow> (string \<times> string option) list \<Rightarrow> error + unit" where
  "check_leftover_opts parser optdict =
     (if optdict \<noteq> [] then Inl (UnknownOptions (cli_flag_name parser) (map fst optdict))
      else Inr ())"

text \<open>\<^verbatim>\<open>for param in ...: param.parse_param(self, inst)\<close>\<close>

fun parse_params :: "VirtCLIArgument list \<Rightarrow> VirtCLIParser \<Rightarrow> xmlobj \<Rightarrow> error + xmlobj" where
  "parse_params [] parser inst = Inr inst"
| "parse_params (param # params) parser inst =
     (case parse_param param parser inst of
        Inl e \<Rightarrow> Inl e
      | Inr inst' \<Rightarrow> parse_params params parser inst')"

text \<open>
  \<^verbatim>\<open>VirtCLIParser._parse(inst)\<close>, the construct mode; \<open>optdict\<close> is
  \<^verbatim>\<open>self.optdict\<close>, of which the method works on a copy.
\<close>

definition parse_inst :: "(string \<Rightarrow> string \<Rightarrow> bool) \<Rightarrow> VirtCLIParser \<Rightarrow> VirtCLIArgumentStatic list \<Rightarrow> (string \<times> string option) list \<Rightarrow> xmlobj \<Rightarrow> error + xmlobj" where
  "parse_inst rm parser virtargs optdict inst =
     (case optdict_to_param_list rm virtargs optdict of
        Inl e \<Rightarrow> Inl e
      | Inr (params, leftover) \<Rightarrow>
          (case parse_params params parser inst of
             Inl e \<Rightarrow> Inl e
           | Inr inst' \<Rightarrow>
               (case check_leftover_opts parser leftover of
                  Inl e \<Rightarrow> Inl e
                | Inr u \<Rightarrow> Inr inst')))"

text \<open>
  The loop over the arguments in \<^verbatim>\<open>lookup_child_from_option_string\<close>, which
  stops at the first argument whose lookup is \<^verbatim>\<open>False\<close>.
\<close>

fun lookup_params :: "VirtCLIArgument list \<Rightarrow> VirtCLIParser \<Rightarrow> xmlobj \<Rightarrow> error + (bool \<times> xmlobj)" where
  "lookup_params [] parser inst = Inr (True, inst)"
| "lookup_params (param # params) parser inst =
     (case lookup_param param parser inst of
        Inl e \<Rightarrow> Inl e
      | Inr (paramret, inst') \<Rightarrow>
          (if \<not> paramret then Inr (False, inst') else lookup_params params parser inst'))"

text \<open>
  The body of the loop over the candidate objects, the match mode: whether the object is
  kept, and the object.
\<close>

definition lookup_inst :: "(string \<Rightarrow> string \<Rightarrow> bool) \<Rightarrow> VirtCLIParser \<Rightarrow> VirtCLIArgumentStatic list \<Rightarrow> (string \<times> string option) list \<Rightarrow> xmlobj \<Rightarrow> error + (bool \<times> xmlobj)" where
  "lookup_inst rm parser virtargs optdict inst =
     (case optdict_to_param_list rm virtargs optdict of
        Inl e \<Rightarrow> Inl e
      | Inr (params, leftover) \<Rightarrow>
          (case lookup_params params parser inst of
             Inl e \<Rightarrow> Inl e
           | Inr (valid, inst') \<Rightarrow>
               (case check_leftover_opts parser leftover of
                  Inl e \<Rightarrow> Inl e
                | Inr u \<Rightarrow> Inr (valid, inst'))))"

text \<open>
  \<^verbatim>\<open>except Exception\<close> catches every error but those of
  \<^verbatim>\<open>fail\<close>, which leave through \<^verbatim>\<open>SystemExit\<close>; the handler
  calls \<^verbatim>\<open>fail\<close> with the flag, the option string and the exception.
\<close>

fun is_exception :: "error \<Rightarrow> bool" where
  "is_exception (MustBeYesOrNo k) = False"
| "is_exception (UnknownOptions f ks) = False"
| "is_exception (OptionError f s e) = False"
| "is_exception e = True"

definition reraise :: "VirtCLIParser \<Rightarrow> error \<Rightarrow> error" where
  "reraise parser e =
     (if is_exception e then OptionError (cli_flag_name parser) (optstr parser) e else e)"

text \<open>
  \<^verbatim>\<open>lookup_child_from_option_string\<close>: \<open>objlist\<close> is the list of the
  guest's objects; the result holds the objects kept and the list of all objects as the
  lookups left them.
\<close>

fun lookup_objs :: "(string \<Rightarrow> string \<Rightarrow> bool) \<Rightarrow> VirtCLIParser \<Rightarrow> VirtCLIArgumentStatic list \<Rightarrow> (string \<times> string option) list \<Rightarrow> xmlobj list \<Rightarrow> error + (xmlobj list \<times> xmlobj list)" where
  "lookup_objs rm parser virtargs optdict [] = Inr ([], [])"
| "lookup_objs rm parser virtargs optdict (inst # objlist) =
     (case lookup_inst rm parser virtargs optdict inst of
        Inl e \<Rightarrow> Inl e
      | Inr (valid, inst') \<Rightarrow>
          (case lookup_objs rm parser virtargs optdict objlist of
             Inl e \<Rightarrow> Inl e
           | Inr (ret, objs) \<Rightarrow> Inr ((if valid then [inst'] else []) @ ret, inst' # objs)))"

definition lookup_child_from_option_string :: "(string \<Rightarrow> string \<Rightarrow> bool) \<Rightarrow> VirtCLIParser \<Rightarrow> VirtCLIArgumentStatic list \<Rightarrow> (string \<times> string option) list \<Rightarrow> xmlobj list \<Rightarrow> error + (xmlobj list \<times> xmlobj list)" where
  "lookup_child_from_option_string rm parser virtargs optdict objlist =
     (case lookup_objs rm parser virtargs optdict objlist of
        Inl e \<Rightarrow> Inl (reraise parser e)
      | Inr r \<Rightarrow> Inr r)"

subsection \<open>Registries of the source\<close>

text \<open>
  \<open>default_args name prop\<close> is the call \<^verbatim>\<open>add_arg(name, prop)\<close> with the
  defaults of the constructor for every keyword.
\<close>

definition default_args :: "string \<Rightarrow> string \<Rightarrow> VirtCLIArgumentStatic" where
  "default_args name prop =
     \<lparr>cliname = name, propname = Some prop, cb = None, can_comma = False,
      ignore_default = False, aliases = [], is_onoff = False, lookup_cb = Unspecified,
      find_inst_cb = None\<rparr>"

text \<open>The calls of \<^verbatim>\<open>ParserUnattended._init_class\<close>.\<close>

definition ParserUnattended_args :: "VirtCLIArgumentStatic list" where
  "ParserUnattended_args =
     [default_args ''profile'' ''profile'',
      default_args ''admin-password'' ''admin_password'',
      default_args ''user-password'' ''user_password'',
      default_args ''product-key'' ''product_key'']"

text \<open>The calls of \<^verbatim>\<open>ParserSecurity._init_class\<close>.\<close>

definition ParserSecurity_args :: "VirtCLIArgumentStatic list" where
  "ParserSecurity_args =
     [default_args ''type'' ''type'',
      default_args ''model'' ''model'',
      (default_args ''relabel'' ''relabel'')\<lparr>is_onoff := True\<rparr>,
      (default_args ''label'' ''label'')\<lparr>can_comma := True\<rparr>,
      (default_args ''baselabel'' ''baselabel'')\<lparr>can_comma := True\<rparr>]"

text \<open>
  The calls of \<^verbatim>\<open>ParserCPU._init_class\<close> for the attributes of a cell, whose
  \<^verbatim>\<open>cell_find_inst_cb\<close> is \<^verbatim>\<open>_make_find_inst_cb("cell", "cells")\<close>.
\<close>

definition ParserCPU_cell_args :: "VirtCLIArgumentStatic list" where
  "ParserCPU_cell_args =
     [(default_args ''cell[0-9]*.id'' ''id'')\<lparr>find_inst_cb := Some (''cell'', ''cells'')\<rparr>,
      (default_args ''cell[0-9]*.cpus'' ''cpus'')
         \<lparr>can_comma := True, find_inst_cb := Some (''cell'', ''cells'')\<rparr>,
      (default_args ''cell[0-9]*.memory'' ''memory'')\<lparr>find_inst_cb := Some (''cell'', ''cells'')\<rparr>]"

text \<open>
  The calls of \<^verbatim>\<open>ParserFilesystem._init_class\<close>, which begin with those of
  \<^verbatim>\<open>_add_device_address_args\<close>.
\<close>

definition ParserFilesystem_args :: "VirtCLIArgumentStatic list" where
  "ParserFilesystem_args =
     [default_args ''address.type'' ''address.type'',
      default_args ''address.domain'' ''address.domain'',
      default_args ''address.bus'' ''address.bus'',
      default_args ''address.slot'' ''address.slot'',
      (default_args ''address.multifunction'' ''address.multifunction'')\<lparr>is_onoff := True\<rparr>,
      default_args ''address.function'' ''address.function'',
      default_args ''address.controller'' ''address.controller'',
      default_args ''address.unit'' ''address.unit'',
      default_args ''address.port'' ''address.port'',
      default_args ''address.target'' ''address.target'',
      default_args ''address.reg'' ''address.reg'',
      default_args ''address.cssid'' ''address.cssid'',
      default_args ''address.ssid'' ''address.ssid'',
      default_args ''address.devno'' ''address.devno'',
      default_args ''address.iobase'' ''address.iobase'',
      default_args ''address.irq'' ''address.irq'',
      default_args ''address.base'' ''address.base'',
      default_args ''type'' ''type'',
      (default_args ''accessmode'' ''accessmode'')\<lparr>aliases := [''mode'']\<rparr>,
      default_args ''source'' ''source'',
      default_args ''target'' ''target'']"

text \<open>
  The registry of a class whose \<^verbatim>\<open>_init_class\<close> makes the calls
  \<open>args\<close> of \<^verbatim>\<open>add_arg\<close>, starting from the empty
  \<^verbatim>\<open>_virtargs\<close> of \<^verbatim>\<open>VirtCLIParser\<close>.
\<close>

definition registry :: "VirtCLIArgumentStatic list \<Rightarrow> VirtCLIArgumentStatic list" where
  "registry args = (case add_args [] args of Inl e \<Rightarrow> [] | Inr virtargs \<Rightarrow> virtargs)"

subsection \<open>Notions of the specification\<close>

text \<open>
  The segments that the commas of a string separate: a string with \<open>N\<close> commas has
  \<open>N + 1\<close> segments, some of which may be empty.
\<close>

fun split_commas :: "string \<Rightarrow> string list" where
  "split_commas [] = [[]]"
| "split_commas (c # cs) =
     (if c = CHR '','' then [] # split_commas cs
      else (case split_commas cs of [] \<Rightarrow> [[c]] | seg # segs \<Rightarrow> (c # seg) # segs))"



text \<open>
  The place of a name in the listing of the options: \<^verbatim>\<open>clearxml\<close>, then the
  \<^verbatim>\<open>address.\<close> options, then the others.
\<close>

definition listing_rank :: "string \<Rightarrow> nat" where
  "listing_rank n = (if n = ''clearxml'' then 0 else if startswith n ''address.'' then 1 else 2)"

section \<open>Properties\<close>

subsection \<open>Boolean normalisation\<close>

text \<open>
  Claim C5, as the code has it. For a descriptor with \<^verbatim>\<open>is_onoff\<close> and a
  value string that is not empty, the conversion yields true exactly when the lowercased
  value is one of y, yes, 1, true, t, on, false exactly when it is one of n, no, 0, false,
  f, off, and fails with the "must be 'yes' or 'no'" error for every other value. The
  empty string is not converted: it becomes the unset value before the conversion, and
  the argument is built without an error.
\<close>

theorem boolean_normalization:
  assumes "is_onoff va" and "s \<noteq> []"
  shows "VirtCLIArgument_init va k (Some s) =
           (if lower s \<in> {''y'', ''yes'', ''1'', ''true'', ''t'', ''on''}
              then Inr \<lparr>val = VBool True, key = k, virtarg = va\<rparr>
            else if lower s \<in> {''n'', ''no'', ''0'', ''false'', ''f'', ''off''}
              then Inr \<lparr>val = VBool False, key = k, virtarg = va\<rparr>
            else Inl (MustBeYesOrNo k))
         \<and> VirtCLIArgument_init va k (Some []) = Inr \<lparr>val = VNone, key = k, virtarg = va\<rparr>"
  using assms
  by (simp add: VirtCLIArgument_init_def on_off_convert_def raw_on_off_convert_def
      tvalues_def fvalues_def)

text \<open>
  \<^verbatim>\<open>relabel=maybe\<close> fails and \<^verbatim>\<open>relabel=Yes\<close> is true, for the
  \<^verbatim>\<open>relabel\<close> descriptor of \<^verbatim>\<open>ParserSecurity\<close>.
\<close>

theorem boolean_normalization_witness:
  "VirtCLIArgument_init ((default_args ''relabel'' ''relabel'')\<lparr>is_onoff := True\<rparr>)
     ''relabel'' (Some ''maybe'') = Inl (MustBeYesOrNo ''relabel'')
   \<and> VirtCLIArgument_init ((default_args ''relabel'' ''relabel'')\<lparr>is_onoff := True\<rparr>)
     ''relabel'' (Some ''Yes'')
     = Inr \<lparr>val = VBool True, key = ''relabel'',
            virtarg = (default_args ''relabel'' ''relabel'')\<lparr>is_onoff := True\<rparr>\<rparr>"
  using boolean_normalization [of "(default_args ''relabel'' ''relabel'')\<lparr>is_onoff := True\<rparr>" "''maybe''" "''relabel''"]
    boolean_normalization [of "(default_args ''relabel'' ''relabel'')\<lparr>is_onoff := True\<rparr>" "''Yes''" "''relabel''"]
  by (simp add: default_args_def lower_def lower_char_def)

text \<open>
  Claim C5 as it is written fails at the empty value string of \<^verbatim>\<open>relabel=\<close>:
  the string is neither a true nor a false token, and the conversion does not fail.
\<close>

theorem boolean_normalization_counterexample:
  "lower [] \<notin> set tvalues \<and> lower [] \<notin> set fvalues
   \<and> VirtCLIArgument_init ((default_args ''relabel'' ''relabel'')\<lparr>is_onoff := True\<rparr>)
        ''relabel'' (Some [])
      = Inr \<lparr>val = VNone, key = ''relabel'',
             virtarg = (default_args ''relabel'' ''relabel'')\<lparr>is_onoff := True\<rparr>\<rparr>"
  by (simp add: VirtCLIArgument_init_def on_off_convert_def default_args_def lower_def
      tvalues_def fvalues_def)

subsection \<open>The tokenizer\<close>

lemma split_commas_nonempty: "split_commas s \<noteq> []"
  by (induction s) (auto split: list.splits)


lemma split_commas_single: "\<forall>c\<in>set s. c \<noteq> CHR '','' \<Longrightarrow> split_commas s = [s]"
  by (induction s) auto

text \<open>
  On a string without quotation marks and backslashes the lexer returns the segments
  between the commas, the empty ones left out.
\<close>

lemma shlex_tokens_plain:
  assumes "\<forall>c\<in>set s. c \<notin> set quotes \<and> c \<notin> set escape"
  shows "shlex_tokens StWord False tok s
           = Inr (filter (\<lambda>seg. seg \<noteq> []) ((tok @ hd (split_commas s)) # tl (split_commas s)))
         \<and> shlex_tokens StWs False [] s = Inr (filter (\<lambda>seg. seg \<noteq> []) (split_commas s))"
  using assms
proof (induction s arbitrary: tok)
  case Nil
  then show ?case by simp
next
  case (Cons c cs)
  have ne: "split_commas cs \<noteq> []" by (rule split_commas_nonempty)
  from Cons.prems have cs: "\<forall>c\<in>set cs. c \<notin> set quotes \<and> c \<notin> set escape"
    and c: "c \<notin> set quotes" "c \<notin> set escape" by simp_all
  note IH = Cons.IH [OF cs]
  show ?case
  proof (cases "c = CHR '',''")
    case True
    with IH [of "[]"] show ?thesis
      by (simp add: whitespace_def emit_def)
  next
    case False
    from ne obtain h t where ht: "split_commas cs = h # t" by (cases "split_commas cs") auto
    with False c IH [of "tok @ [c]"] IH [of "[c]"] show ?thesis
      by (simp add: whitespace_def)
  qed
qed

lemma parse_optstr_tuples_plain:
  assumes "\<forall>c\<in>set s. c \<notin> set quotes \<and> c \<notin> set escape"
  shows "parse_optstr_tuples s = Inr (map split_opt (filter (\<lambda>seg. seg \<noteq> []) (split_commas s)))"
  using shlex_tokens_plain [OF assms, of "[]"] by (simp add: parse_optstr_tuples_def)




lemma takeWhile_before_eq:
  "CHR ''='' \<notin> set name \<Longrightarrow>
   takeWhile (\<lambda>c. c \<noteq> CHR ''='') (name @ ''='') = name
   \<and> dropWhile (\<lambda>c. c \<noteq> CHR ''='') (name @ ''='') = ''=''"
  by (induction name) auto

lemma split_opt_no_eq: "CHR ''='' \<notin> set name \<Longrightarrow> split_opt name = (name, None)"
  by (simp add: split_opt_def)

lemma split_opt_empty_value: "CHR ''='' \<notin> set name \<Longrightarrow> split_opt (name @ ''='') = (name, Some [])"
  by (simp add: split_opt_def takeWhile_before_eq)




subsection \<open>Absent and empty values\<close>

text \<open>
  Claim C6. The tokenizer gives a token written without an equals sign the absent value
  \<open>None\<close>, and the token \<^verbatim>\<open>name=\<close> the empty string. Building an argument
  from an absent value fails for every descriptor with the "had no value set" error;
  building it from the empty string does not fail, and the argument holds the unset
  value.
\<close>

theorem absent_versus_empty_value:
  assumes "name \<noteq> []"
    and "\<forall>c\<in>set name. c \<notin> set quotes \<and> c \<notin> set escape \<and> c \<noteq> CHR '','' \<and> c \<noteq> CHR ''=''"
  shows "parse_optstr_tuples name = Inr [(name, None)]
         \<and> parse_optstr_tuples (name @ ''='') = Inr [(name, Some [])]
         \<and> VirtCLIArgument_init va name None = Inl (NoValueSet name)
         \<and> VirtCLIArgument_init va name (Some []) = Inr \<lparr>val = VNone, key = name, virtarg = va\<rparr>"
proof -
  from assms(2) have pl: "\<forall>c\<in>set name. c \<notin> set quotes \<and> c \<notin> set escape"
    and nc: "\<forall>c\<in>set name. c \<noteq> CHR '',''" and ne: "CHR ''='' \<notin> set name" by auto
  have pl': "\<forall>c\<in>set (name @ ''=''). c \<notin> set quotes \<and> c \<notin> set escape"
    using pl by (simp add: quotes_def escape_def)
  have nc': "\<forall>c\<in>set (name @ ''=''). c \<noteq> CHR '',''" using nc by simp
  have 1: "parse_optstr_tuples name = Inr [(name, None)]"
    using assms(1) by (simp add: parse_optstr_tuples_plain [OF pl] split_commas_single [OF nc] split_opt_no_eq [OF ne])
  have 2: "parse_optstr_tuples (name @ ''='') = Inr [(name, Some [])]"
    by (simp add: parse_optstr_tuples_plain [OF pl'] split_commas_single [OF nc'] split_opt_empty_value [OF ne])
  have 3: "VirtCLIArgument_init va name None = Inl (NoValueSet name)"
    by (simp add: VirtCLIArgument_init_def)
  have 4: "VirtCLIArgument_init va name (Some []) = Inr \<lparr>val = VNone, key = name, virtarg = va\<rparr>"
    by (simp add: VirtCLIArgument_init_def on_off_convert_def)
  from 1 2 3 4 show ?thesis by simp
qed

text \<open>\<^verbatim>\<open>model\<close> and \<^verbatim>\<open>model=\<close>, for the network option of the source's comment.\<close>

theorem absent_versus_empty_value_witness:
  "parse_optstr_tuples ''model'' = Inr [(''model'', None)]
   \<and> parse_optstr_tuples ''model='' = Inr [(''model'', Some [])]
   \<and> VirtCLIArgument_init (default_args ''model'' ''model'') ''model'' None = Inl (NoValueSet ''model'')
   \<and> VirtCLIArgument_init (default_args ''model'' ''model'') ''model'' (Some [])
       = Inr \<lparr>val = VNone, key = ''model'', virtarg = default_args ''model'' ''model''\<rparr>"
  using absent_versus_empty_value [of "''model''" "default_args ''model'' ''model''"]
  by (simp add: quotes_def escape_def)

subsection \<open>Comma continuation\<close>

lemmas regsimps = registry_def add_arg_def VirtCLIArgumentStatic_init_def clearxml_args_def
  default_args_def truthy_def lookup_virtarg_def match_name_def re_match_def re_meta_def







subsection \<open>The binder claims every key once\<close>

text \<open>
  What \<^verbatim>\<open>_optdict_to_param_list\<close> returns for a mapping with distinct
  keys: the entries left are those whose key no descriptor matches, every other key has
  one argument, and the descriptor of an argument is the first that matches its key.
\<close>

lemma odict_del_filter:
  "distinct (map fst od) \<Longrightarrow> odict_del k od = filter (\<lambda>kv. fst kv \<noteq> k) od"
proof (induction od)
  case Nil
  then show ?case by simp
next
  case (Cons kv od)
  from Cons.prems have nin: "fst kv \<notin> fst ` set od" and d: "distinct (map fst od)"
    by simp_all
  have "\<forall>x\<in>set od. fst x \<noteq> fst kv"
    using nin by (metis image_eqI)
  then have "filter (\<lambda>x. fst x \<noteq> fst kv) od = od" by (simp add: filter_id_conv)
  with Cons.IH [OF d] show ?case by auto
qed

lemma VirtCLIArgument_init_key:
  "VirtCLIArgument_init va k v = Inr a \<Longrightarrow> key a = k \<and> virtarg a = va"
  by (auto simp: VirtCLIArgument_init_def Let_def split: option.splits if_splits sum.splits)

lemma lookup_virtarg_Cons:
  "lookup_virtarg rm (va # vs) k = (if match_name rm va k then Some va else lookup_virtarg rm vs k)"
  by (simp add: lookup_virtarg_def)

lemma claim_keys_result:
  assumes "claim_keys rm va ks od = Inr (ret, od')" and "distinct (map fst od)"
  shows "od' = filter (\<lambda>kv. \<not> (fst kv \<in> set ks \<and> match_name rm va (fst kv))) od
         \<and> map key ret = filter (match_name rm va) ks
         \<and> (\<forall>p\<in>set ret. virtarg p = va)"
  using assms
proof (induction ks arbitrary: od ret)
  case Nil
  then show ?case by simp
next
  case (Cons k ks)
  show ?case
  proof (cases "match_name rm va k")
    case False
    with Cons.prems have "claim_keys rm va ks od = Inr (ret, od')" by simp
    from Cons.IH [OF this Cons.prems(2)] False show ?thesis
      by (auto intro: filter_cong)
  next
    case True
    with Cons.prems obtain v a ret0 where v: "map_of od k = Some v"
      and a: "VirtCLIArgument_init va k v = Inr a"
      and rec: "claim_keys rm va ks (odict_del k od) = Inr (ret0, od')"
      and ret: "ret = a # ret0"
      by (auto split: option.splits sum.splits)
    have del: "odict_del k od = filter (\<lambda>kv. fst kv \<noteq> k) od"
      by (rule odict_del_filter [OF Cons.prems(2)])
    have dist: "distinct (map fst (odict_del k od))"
      using Cons.prems(2) by (simp add: del distinct_map_filter)
    from Cons.IH [OF rec dist]
    have od': "od' = filter (\<lambda>kv. \<not> (fst kv \<in> set ks \<and> match_name rm va (fst kv))) (odict_del k od)"
      and keys: "map key ret0 = filter (match_name rm va) ks"
      and vas: "\<forall>p\<in>set ret0. virtarg p = va" by simp_all
    have 1: "od' = filter (\<lambda>kv. \<not> (fst kv \<in> set (k # ks) \<and> match_name rm va (fst kv))) od"
      using True by (auto simp: od' del intro: filter_cong)
    have 2: "map key ret = filter (match_name rm va) (k # ks)"
      using True keys VirtCLIArgument_init_key [OF a] by (simp add: ret)
    have 3: "\<forall>p\<in>set ret. virtarg p = va"
      using vas VirtCLIArgument_init_key [OF a] by (simp add: ret)
    from 1 2 3 show ?thesis by simp
  qed
qed

lemma claim_keys_all:
  assumes "claim_keys rm va (map fst od) od = Inr (ret, od')" and "distinct (map fst od)"
  shows "od' = filter (\<lambda>kv. \<not> match_name rm va (fst kv)) od"
    and "map key ret = filter (match_name rm va) (map fst od)"
    and "\<forall>p\<in>set ret. virtarg p = va"
proof -
  from claim_keys_result [OF assms]
  have 1: "od' = filter (\<lambda>kv. \<not> (fst kv \<in> set (map fst od) \<and> match_name rm va (fst kv))) od"
    and 2: "map key ret = filter (match_name rm va) (map fst od)"
    and 3: "\<forall>p\<in>set ret. virtarg p = va" by simp_all
  from 1 show "od' = filter (\<lambda>kv. \<not> match_name rm va (fst kv)) od"
    by (auto intro: filter_cong)
  from 2 show "map key ret = filter (match_name rm va) (map fst od)" .
  from 3 show "\<forall>p\<in>set ret. virtarg p = va" .
qed

lemma optdict_to_param_list_result:
  assumes "optdict_to_param_list rm vs od = Inr (params, left)" and "distinct (map fst od)"
  shows "left = filter (\<lambda>kv. lookup_virtarg rm vs (fst kv) = None) od
         \<and> distinct (map key params)
         \<and> (\<forall>p\<in>set params. lookup_virtarg rm vs (key p) = Some (virtarg p))
         \<and> set (map key params) = {k \<in> fst ` set od. lookup_virtarg rm vs k \<noteq> None}"
  using assms
proof (induction vs arbitrary: od params left)
  case Nil
  then show ?case by (auto simp: lookup_virtarg_def)
next
  case (Cons va vs)
  from Cons.prems(1) obtain ret od1 ret' where
    ck: "claim_keys rm va (map fst od) od = Inr (ret, od1)"
    and rec: "optdict_to_param_list rm vs od1 = Inr (ret', left)"
    and params: "params = ret @ ret'"
    by (auto split: sum.splits)
  note c = claim_keys_all [OF ck Cons.prems(2)]
  have dist1: "distinct (map fst od1)"
    using Cons.prems(2) by (simp add: c(1) distinct_map_filter)
  from Cons.IH [OF rec dist1]
  have left: "left = filter (\<lambda>kv. lookup_virtarg rm vs (fst kv) = None) od1"
    and d': "distinct (map key ret')"
    and l': "\<forall>p\<in>set ret'. lookup_virtarg rm vs (key p) = Some (virtarg p)"
    and k': "set (map key ret') = {k \<in> fst ` set od1. lookup_virtarg rm vs k \<noteq> None}"
    by simp_all
  have kret: "set (map key ret) = {k \<in> fst ` set od. match_name rm va k}"
    by (auto simp: c(2))
  have od1_keys: "fst ` set od1 = {k \<in> fst ` set od. \<not> match_name rm va k}"
    by (auto simp: c(1))
  have 1: "left = filter (\<lambda>kv. lookup_virtarg rm (va # vs) (fst kv) = None) od"
    by (auto simp: left c(1) lookup_virtarg_Cons intro: filter_cong)
  have dret: "distinct (map key ret)"
    using Cons.prems(2) by (simp add: c(2) distinct_filter)
  have disj: "set (map key ret) \<inter> set (map key ret') = {}"
    unfolding kret k' od1_keys by auto
  have 2: "distinct (map key params)"
    using dret d' disj by (simp add: params)
  have 3: "\<forall>p\<in>set params. lookup_virtarg rm (va # vs) (key p) = Some (virtarg p)"
  proof
    fix p assume "p \<in> set params"
    then consider "p \<in> set ret" | "p \<in> set ret'" by (auto simp: params)
    then show "lookup_virtarg rm (va # vs) (key p) = Some (virtarg p)"
    proof cases
      case 1
      then have "key p \<in> set (map key ret)" by simp
      then have "match_name rm va (key p)" unfolding kret by simp
      with 1 c(3) show ?thesis by (simp add: lookup_virtarg_Cons)
    next
      case 2
      then have "key p \<in> set (map key ret')" by simp
      then have "\<not> match_name rm va (key p)" unfolding k' od1_keys by simp
      with 2 l' show ?thesis by (simp add: lookup_virtarg_Cons)
    qed
  qed
  have 4: "set (map key params) = {k \<in> fst ` set od. lookup_virtarg rm (va # vs) k \<noteq> None}"
  proof -
    have "set (map key params) = set (map key ret) \<union> set (map key ret')"
      by (simp add: params)
    also have "\<dots> = {k \<in> fst ` set od. lookup_virtarg rm (va # vs) k \<noteq> None}"
      unfolding kret k' od1_keys by (auto simp: lookup_virtarg_Cons)
    finally show ?thesis .
  qed
  from 1 2 3 4 show ?case by simp
qed



text \<open>
  The keys of a mapping that the dictionary builder returns are distinct, which is what
  the lemmas above ask of the mapping.
\<close>

lemma map_fst_odict_set:
  "map fst (odict_set k v od) = (if k \<in> fst ` set od then map fst od else map fst od @ [k])"
  by (induction od) auto

lemma distinct_odict_set:
  "distinct (map fst od) \<Longrightarrow> distinct (map fst (odict_set k v od))"
  by (simp add: map_fst_odict_set)

lemma dict_loop_distinct:
  "dict_loop rm virtargs od tuples = Inr od' \<Longrightarrow> distinct (map fst od) \<Longrightarrow> distinct (map fst od')"
proof (induction rm virtargs od tuples arbitrary: od' rule: dict_loop.induct)
  case (1 rm virtargs optdict)
  then show ?case by simp
next
  case (2 rm virtargs optdict name v opttuples)
  show ?case
  proof (cases "lookup_virtarg rm virtargs name")
    case None
    with 2 show ?thesis by (simp add: distinct_odict_set)
  next
    case (Some va)
    show ?thesis
    proof (cases "can_comma va")
      case False
      with 2 Some show ?thesis by (simp add: distinct_odict_set)
    next
      case True
      with "2.prems" Some obtain commaopt rest where
        c: "consume_comma_arg rm virtargs (name, v) opttuples = Inr (commaopt, rest)"
        and r: "dict_loop rm virtargs (odict_set (fst commaopt) (snd commaopt) optdict) rest = Inr od'"
        by (auto split: sum.splits)
      from "2.IH"(2) [OF Some True c refl r] "2.prems"(2) show ?thesis
        by (simp add: distinct_odict_set)
    qed
  qed
qed

lemma parse_optstr_to_dict_distinct:
  "parse_optstr_to_dict rm optstring virtargs remove_first = Inr optdict \<Longrightarrow> distinct (map fst optdict)"
  by (auto simp: parse_optstr_to_dict_def split: sum.splits dest: dict_loop_distinct)



subsection \<open>Registration\<close>

lemma VirtCLIArgumentStatic_init_clearxml:
  "VirtCLIArgumentStatic_init clearxml_args = Inr clearxml_args"
  by (simp add: VirtCLIArgumentStatic_init_def clearxml_args_def truthy_def)

lemma add_arg_result:
  "add_arg virtargs args =
     (case VirtCLIArgumentStatic_init args of
        Inl e \<Rightarrow> Inl e
      | Inr d \<Rightarrow> Inr ((if virtargs = [] then [clearxml_args] else virtargs) @ [d]))"
  by (simp add: add_arg_def VirtCLIArgumentStatic_init_clearxml split: sum.splits)

text \<open>
  Claim C8, as the code has it. Registration does not look for ambiguity:
  \<^verbatim>\<open>add_arg\<close> appends every descriptor that is well formed by itself, whatever
  the registry holds already, also one that matches a name which a registered
  descriptor matches. At parse time a key that several descriptors match is claimed
  once, by the first of them in the order of the registry: every argument built has a key
  of its own, and its descriptor is the first that matches the key.
\<close>

theorem ambiguity_not_detected:
  "(\<forall>d. VirtCLIArgumentStatic_init args = Inr d \<longrightarrow>
        add_arg virtargs args = Inr ((if virtargs = [] then [clearxml_args] else virtargs) @ [d]))
   \<and> (distinct (map fst optdict) \<and> optdict_to_param_list rm virtargs optdict = Inr (params, leftover)
        \<longrightarrow> distinct (map key params)
            \<and> (\<forall>p\<in>set params. lookup_virtarg rm virtargs (key p) = Some (virtarg p)))"
proof (intro conjI allI impI)
  fix d assume "VirtCLIArgumentStatic_init args = Inr d"
  then show "add_arg virtargs args = Inr ((if virtargs = [] then [clearxml_args] else virtargs) @ [d])"
    by (simp add: add_arg_result)
next
  assume a: "distinct (map fst optdict) \<and> optdict_to_param_list rm virtargs optdict = Inr (params, leftover)"
  then have r: "optdict_to_param_list rm virtargs optdict = Inr (params, leftover)"
    and d: "distinct (map fst optdict)" by simp_all
  from optdict_to_param_list_result [OF r d] show "distinct (map key params)" by simp
  from optdict_to_param_list_result [OF r d]
  show "\<forall>p\<in>set params. lookup_virtarg rm virtargs (key p) = Some (virtarg p)" by simp
qed

text \<open>
  The registry of the cell options takes a descriptor \<^verbatim>\<open>cell0.id\<close>, whose
  name \<^verbatim>\<open>cell[0-9]*.id\<close> matches too; the first of the two is looked up.
\<close>

theorem ambiguity_not_detected_witness:
  "add_arg (registry ParserCPU_cell_args) (default_args ''cell0.id'' ''id'')
     = Inr (registry ParserCPU_cell_args @ [(default_args ''cell0.id'' ''id'')\<lparr>lookup_cb := NoLookup\<rparr>])
   \<and> lookup_virtarg re_match (registry (ParserCPU_cell_args @ [default_args ''cell0.id'' ''id'']))
        ''cell0.id''
     = Some ((default_args ''cell[0-9]*.id'' ''id'')
               \<lparr>lookup_cb := NoLookup, find_inst_cb := Some (''cell'', ''cells'')\<rparr>)"
  using ambiguity_not_detected [of "default_args ''cell0.id'' ''id''" "registry ParserCPU_cell_args"
      "[(''cell0.id'', Some ''7'')]" re_match
      "[\<lparr>val = VStr ''7'', key = ''cell0.id'',
          virtarg = (default_args ''cell[0-9]*.id'' ''id'')
                      \<lparr>lookup_cb := NoLookup, find_inst_cb := Some (''cell'', ''cells'')\<rparr>\<rparr>]"
      "[]"]
  by (simp add: regsimps ParserCPU_cell_args_def VirtCLIArgument_init_def)

text \<open>
  Claim C8 as it is written fails: the registration of \<^verbatim>\<open>cell0.id\<close> after
  \<^verbatim>\<open>cell[0-9]*.id\<close> succeeds although both match the name
  \<^verbatim>\<open>cell0.id\<close>, and the binder gives the key to the first.
\<close>

theorem ambiguity_not_detected_counterexample:
  "add_args [] (ParserCPU_cell_args @ [default_args ''cell0.id'' ''id''])
     = Inr (registry ParserCPU_cell_args @ [(default_args ''cell0.id'' ''id'')\<lparr>lookup_cb := NoLookup\<rparr>])
   \<and> match_name re_match (hd (tl (registry ParserCPU_cell_args))) ''cell0.id''
   \<and> cliname (hd (tl (registry ParserCPU_cell_args))) = ''cell[0-9]*.id''
   \<and> match_name re_match ((default_args ''cell0.id'' ''id'')\<lparr>lookup_cb := NoLookup\<rparr>) ''cell0.id''
   \<and> optdict_to_param_list re_match
        (registry (ParserCPU_cell_args @ [default_args ''cell0.id'' ''id'']))
        [(''cell0.id'', Some ''7'')]
     = Inr ([\<lparr>val = VStr ''7'', key = ''cell0.id'', virtarg = hd (tl (registry ParserCPU_cell_args))\<rparr>], [])"
  by (simp add: regsimps ParserCPU_cell_args_def VirtCLIArgument_init_def)


lemma make_find_inst_cb_not_match_error:
  "make_find_inst_cb cliarg lp inst k e \<noteq> Inl (DontKnowHowToMatch k')"
  by (simp add: make_find_inst_cb_def Let_def split: option.splits)

lemma get_entry_not_match_error: "get_entry inst lp n \<noteq> Inl (DontKnowHowToMatch k')"
  by (simp add: get_entry_def split: option.splits)

lemma compare_param_not_match_error: "compare_param parser a inst \<noteq> Inl (DontKnowHowToMatch k')"
  by (simp add: compare_param_def get_prop_path_def split: lookup_cb_v.splits option.splits sum.splits)

lemma lookup_param_match_error:
  "(lookup_param \<lparr>val = v, key = k, virtarg = d\<rparr> parser inst = Inl (DontKnowHowToMatch k))
     = (\<not> truthy (propname d) \<and> (case lookup_cb d of NoLookup \<Rightarrow> True | Unspecified \<Rightarrow> False | Lookup f \<Rightarrow> False))"
proof (cases "\<not> truthy (propname d) \<and> (case lookup_cb d of NoLookup \<Rightarrow> True | Unspecified \<Rightarrow> False | Lookup f \<Rightarrow> False)")
  case True
  then show ?thesis by (simp add: lookup_param_def)
next
  case False
  have "lookup_param \<lparr>val = v, key = k, virtarg = d\<rparr> parser inst \<noteq> Inl (DontKnowHowToMatch k)"
    using False make_find_inst_cb_not_match_error get_entry_not_match_error
      compare_param_not_match_error
    by (auto simp: lookup_param_def split: option.splits sum.splits prod.splits)
  with False show ?thesis by simp
qed

text \<open>
  Claim C9, as the code has it. A descriptor without an attribute path whose
  \<^verbatim>\<open>lookup_cb\<close> is left unspecified cannot be registered. One without an
  attribute path, with a callback and with \<^verbatim>\<open>lookup_cb\<close> given as
  \<^verbatim>\<open>None\<close> is registered as it is. For a registered descriptor the lookup
  of match mode fails with the "don't know how to match" error exactly when the
  descriptor has neither an attribute path nor a lookup callback.
\<close>

theorem match_capability_registration:
  "(\<not> truthy (propname args) \<and> lookup_cb args = Unspecified
      \<longrightarrow> (\<exists>e. VirtCLIArgumentStatic_init args = Inl e))
   \<and> (\<not> truthy (propname args) \<and> cb args \<noteq> None \<and> lookup_cb args = NoLookup
      \<longrightarrow> VirtCLIArgumentStatic_init args = Inr args)
   \<and> (\<forall>d. VirtCLIArgumentStatic_init args = Inr d \<longrightarrow>
          lookup_cb d \<noteq> Unspecified
          \<and> ((lookup_param \<lparr>val = v, key = k, virtarg = d\<rparr> parser inst = Inl (DontKnowHowToMatch k))
               = (\<not> truthy (propname d) \<and> lookup_cb d = NoLookup)))"
proof (intro conjI allI impI)
  assume "\<not> truthy (propname args) \<and> lookup_cb args = Unspecified"
  then show "\<exists>e. VirtCLIArgumentStatic_init args = Inl e"
    by (simp add: VirtCLIArgumentStatic_init_def)
next
  assume "\<not> truthy (propname args) \<and> cb args \<noteq> None \<and> lookup_cb args = NoLookup"
  then show "VirtCLIArgumentStatic_init args = Inr args"
    by (auto simp: VirtCLIArgumentStatic_init_def)
next
  fix d assume d: "VirtCLIArgumentStatic_init args = Inr d"
  then show "lookup_cb d \<noteq> Unspecified"
    by (auto simp: VirtCLIArgumentStatic_init_def split: if_splits lookup_cb_v.splits)
  then have "(case lookup_cb d of NoLookup \<Rightarrow> True | Unspecified \<Rightarrow> False | Lookup f \<Rightarrow> False)
               = (lookup_cb d = NoLookup)"
    by (cases "lookup_cb d") simp_all
  then show "(lookup_param \<lparr>val = v, key = k, virtarg = d\<rparr> parser inst = Inl (DontKnowHowToMatch k))
               = (\<not> truthy (propname d) \<and> lookup_cb d = NoLookup)"
    by (simp add: lookup_param_match_error)
qed

text \<open>
  The \<^verbatim>\<open>clearxml\<close> descriptor of every registry, and a descriptor like the
  \<^verbatim>\<open>force\<close> of \<^verbatim>\<open>ParserCPU\<close> with its
  \<^verbatim>\<open>lookup_cb=None\<close> left out.
\<close>

theorem match_capability_registration_witness:
  "VirtCLIArgumentStatic_init clearxml_args = Inr clearxml_args
   \<and> lookup_param \<lparr>val = VBool True, key = ''clearxml'', virtarg = clearxml_args\<rparr>
        \<lparr>optstr = ''clearxml=yes'', guest_propname = Some ''seclabels'', cli_arg_name = ''security''\<rparr>
        (XMLObj [(''model'', VNone)] [])
      = Inl (DontKnowHowToMatch ''clearxml'')
   \<and> (\<exists>e. VirtCLIArgumentStatic_init
              \<lparr>cliname = ''force'', propname = None, cb = Some clearxml_cb, can_comma = False,
               ignore_default = False, aliases = [], is_onoff = False, lookup_cb = Unspecified,
               find_inst_cb = None\<rparr> = Inl e)"
  using match_capability_registration [of clearxml_args "VBool True" "''clearxml''"
      "\<lparr>optstr = ''clearxml=yes'', guest_propname = Some ''seclabels'', cli_arg_name = ''security''\<rparr>"
      "XMLObj [(''model'', VNone)] []"]
    match_capability_registration [of
      "\<lparr>cliname = ''force'', propname = None, cb = Some clearxml_cb, can_comma = False,
               ignore_default = False, aliases = [], is_onoff = False, lookup_cb = Unspecified,
               find_inst_cb = None\<rparr>"]
  by (simp add: clearxml_args_def truthy_def)

text \<open>
  Claim C9 as it is written fails at \<^verbatim>\<open>clearxml\<close>, which has neither an
  attribute path nor a lookup callback, is registered first in every registry, and is
  reached in match mode by \<^verbatim>\<open>clearxml=yes\<close>, where the lookup fails.
\<close>

theorem match_capability_registration_counterexample:
  "VirtCLIArgumentStatic_init clearxml_args = Inr clearxml_args
   \<and> propname clearxml_args = None
   \<and> lookup_cb clearxml_args = NoLookup
   \<and> hd (registry ParserSecurity_args) = clearxml_args
   \<and> lookup_child_from_option_string re_match
        \<lparr>optstr = ''clearxml=yes'', guest_propname = Some ''seclabels'', cli_arg_name = ''security''\<rparr>
        (registry ParserSecurity_args) [(''clearxml'', Some ''yes'')]
        [XMLObj [(''model'', VNone)] []]
      = Inl (OptionError ''--security'' ''clearxml=yes'' (DontKnowHowToMatch ''clearxml''))"
  by (simp add: regsimps ParserSecurity_args_def lookup_child_from_option_string_def
      lookup_inst_def VirtCLIArgument_init_def on_off_convert_def raw_on_off_convert_def
      lower_def lower_char_def tvalues_def fvalues_def lookup_param_def reraise_def
      cli_flag_name_def)

lemma add_args_append:
  "add_args vs as = Inr vs' \<Longrightarrow> vs \<noteq> [] \<Longrightarrow>
   \<exists>ds. vs' = vs @ ds \<and> map VirtCLIArgumentStatic_init as = map Inr ds"
proof (induction as arbitrary: vs)
  case Nil
  then show ?case by simp
next
  case (Cons a as)
  from Cons.prems obtain d where d: "VirtCLIArgumentStatic_init a = Inr d"
    and rec: "add_args (vs @ [d]) as = Inr vs'"
    by (auto simp: add_arg_result split: sum.splits)
  from Cons.IH [OF rec] obtain ds where "vs' = (vs @ [d]) @ ds"
    and "map VirtCLIArgumentStatic_init as = map Inr ds" by auto
  with d have "vs' = vs @ (d # ds) \<and> map VirtCLIArgumentStatic_init (a # as) = map Inr (d # ds)"
    by simp
  then show ?case by blast
qed

text \<open>
  Claim C10. When a class has made its calls of \<^verbatim>\<open>add_arg\<close>, its registry
  is the \<^verbatim>\<open>clearxml\<close> descriptor followed by the descriptors of the calls,
  in their order. The \<^verbatim>\<open>clearxml\<close> descriptor is boolean, has no attribute
  path, has its lookup callback given as none and is bound to the callback that clears
  the configuration; the name \<^verbatim>\<open>clearxml\<close> is resolved to it.
\<close>

theorem clearxml_registered_first:
  assumes "add_args [] (a # as) = Inr virtargs"
  shows "(\<exists>ds. virtargs = clearxml_args # ds
             \<and> map VirtCLIArgumentStatic_init (a # as) = map Inr ds)
         \<and> cliname clearxml_args = ''clearxml'' \<and> is_onoff clearxml_args
         \<and> propname clearxml_args = None \<and> lookup_cb clearxml_args = NoLookup
         \<and> cb clearxml_args = Some clearxml_cb
         \<and> lookup_virtarg re_match virtargs ''clearxml'' = Some clearxml_args"
proof -
  from assms obtain d where d: "VirtCLIArgumentStatic_init a = Inr d"
    and rec: "add_args [clearxml_args, d] as = Inr virtargs"
    by (auto simp: add_arg_result split: sum.splits)
  from add_args_append [OF rec] obtain ds where "virtargs = [clearxml_args, d] @ ds"
    and "map VirtCLIArgumentStatic_init as = map Inr ds" by auto
  with d have 1: "virtargs = clearxml_args # (d # ds)
      \<and> map VirtCLIArgumentStatic_init (a # as) = map Inr (d # ds)" by simp
  then have 2: "lookup_virtarg re_match virtargs ''clearxml'' = Some clearxml_args"
    by (simp add: lookup_virtarg_def match_name_def clearxml_args_def re_match_def re_meta_def)
  from 1 2 show ?thesis by (auto simp: clearxml_args_def)
qed

text \<open>The registry of \<^verbatim>\<open>ParserUnattended\<close>.\<close>

theorem clearxml_registered_first_witness:
  "map cliname (registry ParserUnattended_args)
     = [''clearxml'', ''profile'', ''admin-password'', ''user-password'', ''product-key'']
   \<and> hd (registry ParserUnattended_args) = clearxml_args
   \<and> lookup_virtarg re_match (registry ParserUnattended_args) ''clearxml'' = Some clearxml_args"
proof -
  have r: "add_args [] ParserUnattended_args = Inr (registry ParserUnattended_args)"
    by (simp add: regsimps ParserUnattended_args_def)
  have n: "map cliname (registry ParserUnattended_args)
     = [''clearxml'', ''profile'', ''admin-password'', ''user-password'', ''product-key'']"
    by (simp add: regsimps ParserUnattended_args_def)
  from clearxml_registered_first [OF r [unfolded ParserUnattended_args_def]]
  have "hd (registry ParserUnattended_args) = clearxml_args
        \<and> lookup_virtarg re_match (registry ParserUnattended_args) ''clearxml'' = Some clearxml_args"
    by (auto simp: ParserUnattended_args_def)
  with n show ?thesis by simp
qed


subsection \<open>Indexed sub-objects\<close>

lemma grow_entries:
  "entries (grow cl n) = entries cl @ replicate (n - length (entries cl)) (template cl)
   \<and> template (grow cl n) = template cl"
proof (induction cl n rule: grow.induct)
  case (1 cl n)
  show ?case
  proof (cases "length (entries cl) < n")
    case True
    then have "n - length (entries cl) = Suc (n - Suc (length (entries cl)))" by simp
    with True "1.IH" show ?thesis
      by (simp add: add_new_def replicate_app_Cons_same)
  next
    case False
    then show ?thesis by simp
  qed
qed

lemma grow_empty_4: "grow (ChildList t []) 4 = ChildList t [t, t, t, t]"
  using grow_entries [of "ChildList t []" 4]
  by (cases "grow (ChildList t []) 4") (simp add: numeral_eq_Suc)

lemma search_index_cell3: "search_index ''cell'' ''cell3.id'' = Some 3"
  by (simp add: digits_def int_of_digits_def digit_val_def)

text \<open>
  Claim C2. For the descriptor \<^verbatim>\<open>cell[0-9]*.id\<close>, whose callback
  \<^verbatim>\<open>_make_find_inst_cb("cell", "cells")\<close> builds, and an object whose
  collection \<^verbatim>\<open>cells\<close> is empty: in construct mode
  \<^verbatim>\<open>cell3.id=5\<close> makes the callback create four default entries, at the
  indices 0 to 3, and the value is assigned on the entry at index 3; in match mode the
  callback returns no entry, the object does not match and the collection stays empty.
\<close>

theorem indexed_sub_object_boundary:
  assumes "map_of (props t) ''id'' = Some v0"
  shows "parse_optstr_to_dict re_match ''cell3.id=5'' (registry ParserCPU_cell_args) [''model'']
           = Inr [(''cell3.id'', Some ''5'')]
         \<and> make_find_inst_cb ''cell'' ''cells'' (XMLObj ps [(''cells'', ChildList t [])]) ''cell3.id'' True
           = Inr (XMLObj ps [(''cells'', ChildList t [t, t, t, t])], Some 3)
         \<and> parse_inst re_match parser (registry ParserCPU_cell_args) [(''cell3.id'', Some ''5'')]
             (XMLObj ps [(''cells'', ChildList t [])])
           = Inr (XMLObj ps [(''cells'', ChildList t [t, t, t, set_prop_path t ''id'' (VStr ''5'')])])
         \<and> make_find_inst_cb ''cell'' ''cells'' (XMLObj ps [(''cells'', ChildList t [])]) ''cell3.id'' False
           = Inr (XMLObj ps [(''cells'', ChildList t [])], None)
         \<and> lookup_child_from_option_string re_match parser (registry ParserCPU_cell_args)
             [(''cell3.id'', Some ''5'')] [XMLObj ps [(''cells'', ChildList t [])]]
           = Inr ([], [XMLObj ps [(''cells'', ChildList t [])]])"
proof -
  have 1: "parse_optstr_to_dict re_match ''cell3.id=5'' (registry ParserCPU_cell_args) [''model'']
           = Inr [(''cell3.id'', Some ''5'')]"
    by (simp add: parse_optstr_to_dict_def parse_optstr_tuples_def whitespace_def quotes_def
        escape_def emit_def split_opt_def regsimps ParserCPU_cell_args_def)
  have 2: "make_find_inst_cb ''cell'' ''cells'' (XMLObj ps [(''cells'', ChildList t [])]) ''cell3.id'' True
           = Inr (XMLObj ps [(''cells'', ChildList t [t, t, t, t])], Some 3)"
    by (simp add: make_find_inst_cb_def search_index_cell3 grow_empty_4 del: grow.simps search_index.simps)
  have 4: "make_find_inst_cb ''cell'' ''cells'' (XMLObj ps [(''cells'', ChildList t [])]) ''cell3.id'' False
           = Inr (XMLObj ps [(''cells'', ChildList t [])], None)"
    by (simp add: make_find_inst_cb_def search_index_cell3 del: grow.simps search_index.simps)
  have params: "optdict_to_param_list re_match (registry ParserCPU_cell_args) [(''cell3.id'', Some ''5'')]
      = Inr ([\<lparr>val = VStr ''5'', key = ''cell3.id'',
               virtarg = (default_args ''cell[0-9]*.id'' ''id'')\<lparr>lookup_cb := NoLookup, find_inst_cb := Some (''cell'', ''cells'')\<rparr>\<rparr>], [])"
    by (simp add: regsimps ParserCPU_cell_args_def VirtCLIArgument_init_def)
  have 3: "parse_inst re_match parser (registry ParserCPU_cell_args) [(''cell3.id'', Some ''5'')]
             (XMLObj ps [(''cells'', ChildList t [])])
           = Inr (XMLObj ps [(''cells'', ChildList t [t, t, t, set_prop_path t ''id'' (VStr ''5'')])])"
    using assms
    by (simp add: parse_inst_def params parse_param_def 2 get_entry_def assign_param_def
        default_args_def truthy_def get_prop_path_def set_entry_def check_leftover_opts_def)
  have 5: "lookup_child_from_option_string re_match parser (registry ParserCPU_cell_args)
             [(''cell3.id'', Some ''5'')] [XMLObj ps [(''cells'', ChildList t [])]]
           = Inr ([], [XMLObj ps [(''cells'', ChildList t [])]])"
    by (simp add: lookup_child_from_option_string_def lookup_inst_def params lookup_param_def 4
        default_args_def truthy_def check_leftover_opts_def)
  from 1 2 3 4 5 show ?thesis by simp
qed

text \<open>A processor object whose cells have the attributes of the three cell options.\<close>

theorem indexed_sub_object_boundary_witness:
  "parse_inst re_match
     \<lparr>optstr = ''cell3.id=5'', guest_propname = Some ''cpu'', cli_arg_name = ''cpu''\<rparr>
     (registry ParserCPU_cell_args) [(''cell3.id'', Some ''5'')]
     (XMLObj [(''model'', VNone)]
        [(''cells'', ChildList (XMLObj [(''id'', VNone), (''cpus'', VNone), (''memory'', VNone)] []) [])])
   = Inr (XMLObj [(''model'', VNone)]
        [(''cells'', ChildList (XMLObj [(''id'', VNone), (''cpus'', VNone), (''memory'', VNone)] [])
           [XMLObj [(''id'', VNone), (''cpus'', VNone), (''memory'', VNone)] [],
            XMLObj [(''id'', VNone), (''cpus'', VNone), (''memory'', VNone)] [],
            XMLObj [(''id'', VNone), (''cpus'', VNone), (''memory'', VNone)] [],
            XMLObj [(''id'', VStr ''5''), (''cpus'', VNone), (''memory'', VNone)] []])])
   \<and> lookup_child_from_option_string re_match
       \<lparr>optstr = ''cell3.id=5'', guest_propname = Some ''cpu'', cli_arg_name = ''cpu''\<rparr>
       (registry ParserCPU_cell_args) [(''cell3.id'', Some ''5'')]
       [XMLObj [(''model'', VNone)]
          [(''cells'', ChildList (XMLObj [(''id'', VNone), (''cpus'', VNone), (''memory'', VNone)] []) [])]]
   = Inr ([], [XMLObj [(''model'', VNone)]
          [(''cells'', ChildList (XMLObj [(''id'', VNone), (''cpus'', VNone), (''memory'', VNone)] []) [])]])"
  using indexed_sub_object_boundary [where t = "XMLObj [(''id'', VNone), (''cpus'', VNone), (''memory'', VNone)] []"
      and ?v0.0 = VNone
      and parser = "\<lparr>optstr = ''cell3.id=5'', guest_propname = Some ''cpu'', cli_arg_name = ''cpu''\<rparr>"
      and ps = "[(''model'', VNone)]"]
  by (simp add: set_prop_path_def)


subsection \<open>The introspection listing\<close>

text \<open>A list sorted by a key is the elements up to a bound followed by those above it.\<close>

lemma sorted_key_split:
  fixes f :: "'a \<Rightarrow> nat"
  assumes "sorted (map f xs)"
  shows "xs = filter (\<lambda>x. f x \<le> c) xs @ filter (\<lambda>x. c < f x) xs"
  using assms
proof (induction xs)
  case Nil
  then show ?case by simp
next
  case (Cons x xs)
  then have le: "\<forall>y\<in>set xs. f x \<le> f y" and s: "sorted (map f xs)" by simp_all
  show ?case
  proof (cases "f x \<le> c")
    case True
    with Cons.IH [OF s] show ?thesis by simp
  next
    case False
    with le have "\<forall>y\<in>set xs. c < f y" by force
    then have "filter (\<lambda>x. f x \<le> c) xs = []" "filter (\<lambda>x. c < f x) xs = xs"
      by (auto simp: filter_empty_conv filter_id_conv)
    with False show ?thesis by simp
  qed
qed

lemma sortkey_cases:
  "sortkey va = (if startswith (cliname va) ''address.'' then ''1'' @ cliname va
                 else if cliname va = ''clearxml'' then ''0clearxml'' else cliname va)"
  by (simp add: sortkey_def Let_def)

lemma clearxml_not_address: "\<not> startswith ''clearxml'' ''address.''"
  by (simp add: startswith_def)

lemma sortkey_rank_mono:
  assumes a: "cliname va = ''clearxml'' \<or> startswith (cliname va) ''address.''
              \<or> (cliname va \<noteq> [] \<and> CHR ''1'' < hd (cliname va))"
    and b: "cliname vb = ''clearxml'' \<or> startswith (cliname vb) ''address.''
              \<or> (cliname vb \<noteq> [] \<and> CHR ''1'' < hd (cliname vb))"
    and le: "sortkey va \<le> sortkey vb"
  shows "listing_rank (cliname va) \<le> listing_rank (cliname vb)"
proof (rule ccontr)
  assume "\<not> listing_rank (cliname va) \<le> listing_rank (cliname vb)"
  then have gt: "listing_rank (cliname vb) < listing_rank (cliname va)" by simp
  have c01: "CHR ''0'' < CHR ''1''" by simp
  consider (b0) "cliname vb = ''clearxml''"
    | (b1) "startswith (cliname vb) ''address.''" "cliname vb \<noteq> ''clearxml''"
    | (b2) "\<not> startswith (cliname vb) ''address.''" "cliname vb \<noteq> ''clearxml''"
    by blast
  then show False
  proof cases
    case b0
    then have kb: "sortkey vb = ''0clearxml''"
      by (simp add: sortkey_cases clearxml_not_address)
    from gt b0 have na: "cliname va \<noteq> ''clearxml''" by (auto simp: listing_rank_def)
    show False
    proof (cases "startswith (cliname va) ''address.''")
      case True
      then have "sortkey va = CHR ''1'' # cliname va" by (simp add: sortkey_cases)
      with le kb show False by simp
    next
      case False
      with a na obtain h r where hr: "cliname va = h # r" "CHR ''1'' < h"
        by (cases "cliname va") auto
      from order.strict_trans [OF c01 hr(2)] have h0: "CHR ''0'' < h" .
      from False na hr have "sortkey va = h # r" by (simp add: sortkey_cases)
      with le kb h0 show False by auto
    qed
  next
    case b1
    then have kb: "sortkey vb = CHR ''1'' # cliname vb" by (simp add: sortkey_cases)
    from gt b1 have na: "cliname va \<noteq> ''clearxml''" "\<not> startswith (cliname va) ''address.''"
      by (auto simp: listing_rank_def split: if_splits)
    with a obtain h r where hr: "cliname va = h # r" "CHR ''1'' < h"
      by (cases "cliname va") auto
    with na have "sortkey va = h # r" by (simp add: sortkey_cases)
    with le kb hr(2) show False by auto
  next
    case b2
    then have "listing_rank (cliname vb) = 2" by (simp add: listing_rank_def)
    with gt show False by (simp add: listing_rank_def split: if_splits)
  qed
qed


lemma listing_rank_simps:
  "(listing_rank n \<le> 0) = (n = ''clearxml'')"
  "(0 < listing_rank n) = (n \<noteq> ''clearxml'')"
  "(0 < listing_rank n \<and> listing_rank n \<le> 1) = (startswith n ''address.'')"
  "(0 < listing_rank n \<and> 1 < listing_rank n) = (n \<noteq> ''clearxml'' \<and> \<not> startswith n ''address.'')"
  using clearxml_not_address by (auto simp: listing_rank_def)

lemma sorted_map_Cons: "sorted (map ((#) c) xs) = sorted xs"
  by (induction xs) auto

lemma sorted_rank_partition:
  assumes "sorted (map (\<lambda>v. listing_rank (cliname v)) ys)"
  shows "map cliname ys
           = filter (\<lambda>n. n = ''clearxml'') (map cliname ys)
             @ filter (\<lambda>n. startswith n ''address.'') (map cliname ys)
             @ filter (\<lambda>n. n \<noteq> ''clearxml'' \<and> \<not> startswith n ''address.'') (map cliname ys)"
proof -
  let ?f = "\<lambda>v. listing_rank (cliname v)"
  let ?R = "filter (\<lambda>v. 0 < ?f v) ys"
  let ?A = "filter (\<lambda>v. cliname v = ''clearxml'') ys"
  let ?B = "filter (\<lambda>v. startswith (cliname v) ''address.'') ys"
  let ?C = "filter (\<lambda>v. cliname v \<noteq> ''clearxml'' \<and> \<not> startswith (cliname v) ''address.'') ys"
  have 1: "ys = filter (\<lambda>v. ?f v \<le> 0) ys @ ?R"
    by (rule sorted_key_split [OF assms])
  have sR: "sorted (map ?f ?R)" using assms by (rule sorted_filter)
  have 2: "?R = filter (\<lambda>v. 0 < ?f v \<and> ?f v \<le> 1) ys @ filter (\<lambda>v. 0 < ?f v \<and> 1 < ?f v) ys"
    by (rule sorted_key_split [OF sR, of 1, unfolded filter_filter])
  have a: "filter (\<lambda>v. ?f v \<le> 0) ys = ?A"
    by (rule filter_cong [OF refl]) (simp only: listing_rank_simps(1))
  have b: "filter (\<lambda>v. 0 < ?f v \<and> ?f v \<le> 1) ys = ?B"
    by (rule filter_cong [OF refl]) (simp only: listing_rank_simps(3))
  have c: "filter (\<lambda>v. 0 < ?f v \<and> 1 < ?f v) ys = ?C"
    by (rule filter_cong [OF refl]) (simp only: listing_rank_simps(4))
  have "filter (\<lambda>v. ?f v \<le> 0) ys @ ?R = ?A @ ?B @ ?C"
    by (simp only: 2 a b c)
  with 1 have "ys = ?A @ ?B @ ?C" by (rule trans)
  then have "map cliname ys = map cliname (?A @ ?B @ ?C)" by (rule arg_cong)
  also have "\<dots> = filter (\<lambda>n. n = ''clearxml'') (map cliname ys)
             @ filter (\<lambda>n. startswith n ''address.'') (map cliname ys)
             @ filter (\<lambda>n. n \<noteq> ''clearxml'' \<and> \<not> startswith n ''address.'') (map cliname ys)"
    by (simp only: filter_map comp_def map_append)
  finally show ?thesis .
qed

text \<open>
  Claim C4, as the code has it. For a registry whose option names, other than
  \<^verbatim>\<open>clearxml\<close> and the \<^verbatim>\<open>address.\<close> options, begin with a
  character after \<^verbatim>\<open>1\<close> (a letter, as every name of the source does), the
  listing emits \<^verbatim>\<open>clearxml\<close> first, then the \<^verbatim>\<open>address.\<close>
  options, then all other names; the address options and the other names are each in
  ascending order, and the listing holds the names of the registry.
\<close>

theorem introspection_order:
  assumes "\<forall>va\<in>set virtargs. cliname va = ''clearxml'' \<or> startswith (cliname va) ''address.''
              \<or> (cliname va \<noteq> [] \<and> CHR ''1'' < hd (cliname va))"
  shows "introspection_names virtargs
           = filter (\<lambda>n. n = ''clearxml'') (introspection_names virtargs)
             @ filter (\<lambda>n. startswith n ''address.'') (introspection_names virtargs)
             @ filter (\<lambda>n. n \<noteq> ''clearxml'' \<and> \<not> startswith n ''address.'')
                 (introspection_names virtargs)
         \<and> sorted (filter (\<lambda>n. startswith n ''address.'') (introspection_names virtargs))
         \<and> sorted (filter (\<lambda>n. n \<noteq> ''clearxml'' \<and> \<not> startswith n ''address.'')
                     (introspection_names virtargs))
         \<and> set (introspection_names virtargs) = cliname ` set virtargs
         \<and> ((\<exists>va\<in>set virtargs. cliname va = ''clearxml'')
              \<longrightarrow> hd (introspection_names virtargs) = ''clearxml'')"
proof -
  let ?ys = "sort_key sortkey virtargs"
  let ?names = "introspection_names virtargs"
  have names: "?names = map cliname ?ys" by (simp add: introspection_names_def)
  have set_ys: "set ?ys = set virtargs" by simp
  have sk: "sorted (map sortkey ?ys)" by simp
  have "sorted_wrt (\<lambda>x y. sortkey x \<le> sortkey y) ?ys"
    using sk by (simp add: sorted_map)
  then have "sorted_wrt (\<lambda>x y. listing_rank (cliname x) \<le> listing_rank (cliname y)) ?ys"
  proof (rule sorted_wrt_mono_rel [rotated])
    fix x y assume "x \<in> set ?ys" "y \<in> set ?ys" "sortkey x \<le> sortkey y"
    with assms show "listing_rank (cliname x) \<le> listing_rank (cliname y)"
      by (intro sortkey_rank_mono) (auto simp: set_ys)
  qed
  then have rk: "sorted (map (\<lambda>v. listing_rank (cliname v)) ?ys)"
    by (simp add: sorted_map)
  have 1: "?names = filter (\<lambda>n. n = ''clearxml'') ?names
             @ filter (\<lambda>n. startswith n ''address.'') ?names
             @ filter (\<lambda>n. n \<noteq> ''clearxml'' \<and> \<not> startswith n ''address.'') ?names"
    unfolding names by (rule sorted_rank_partition [OF rk])
  have 2: "sorted (filter (\<lambda>n. startswith n ''address.'') ?names)"
  proof -
    let ?A = "filter (\<lambda>v. startswith (cliname v) ''address.'') ?ys"
    have "sorted (map sortkey ?A)" using sk by (rule sorted_filter)
    moreover have "map sortkey ?A = map ((#) CHR ''1'') (map cliname ?A)"
      by (simp add: sortkey_cases)
    ultimately have "sorted (map cliname ?A)" by (simp only: sorted_map_Cons)
    then show ?thesis by (simp add: names filter_map comp_def)
  qed
  have 3: "sorted (filter (\<lambda>n. n \<noteq> ''clearxml'' \<and> \<not> startswith n ''address.'') ?names)"
  proof -
    let ?C = "filter (\<lambda>v. cliname v \<noteq> ''clearxml'' \<and> \<not> startswith (cliname v) ''address.'') ?ys"
    have "sorted (map sortkey ?C)" using sk by (rule sorted_filter)
    moreover have "map sortkey ?C = map cliname ?C"
      by (simp add: sortkey_cases)
    ultimately have "sorted (map cliname ?C)" by simp
    then show ?thesis by (simp add: names filter_map comp_def)
  qed
  have 4: "set ?names = cliname ` set virtargs" by (simp add: names)
  have 5: "(\<exists>va\<in>set virtargs. cliname va = ''clearxml'') \<longrightarrow> hd ?names = ''clearxml''"
  proof
    assume "\<exists>va\<in>set virtargs. cliname va = ''clearxml''"
    then have "''clearxml'' \<in> set ?names" using 4 by force
    then have "filter (\<lambda>n. n = ''clearxml'') ?names \<noteq> []"
      by (simp add: filter_empty_conv)
    then obtain x xs where f: "filter (\<lambda>n. n = ''clearxml'') ?names = x # xs"
      by (cases "filter (\<lambda>n. n = ''clearxml'') ?names") auto
    then have "x \<in> set (filter (\<lambda>n. n = ''clearxml'') ?names)" by simp
    then have x: "x = ''clearxml''" by simp
    have "hd ?names = hd (filter (\<lambda>n. n = ''clearxml'') ?names
             @ filter (\<lambda>n. startswith n ''address.'') ?names
             @ filter (\<lambda>n. n \<noteq> ''clearxml'' \<and> \<not> startswith n ''address.'') ?names)"
      using 1 by (rule arg_cong)
    also have "\<dots> = x" by (simp only: f append_Cons list.sel)
    finally show "hd ?names = ''clearxml''" by (simp only: x)
  qed
  show ?thesis by (intro conjI 1 2 3 4 5)
qed


text \<open>The registry of \<^verbatim>\<open>ParserFilesystem\<close>.\<close>

theorem introspection_order_witness:
  "list_all (\<lambda>va. cliname va = ''clearxml'' \<or> startswith (cliname va) ''address.''
              \<or> (cliname va \<noteq> [] \<and> CHR ''1'' < hd (cliname va)))
     (registry ParserFilesystem_args)
   \<and> hd (introspection_names (registry ParserFilesystem_args)) = ''clearxml''
   \<and> introspection_names (registry ParserFilesystem_args)
       = filter (\<lambda>n. n = ''clearxml'') (introspection_names (registry ParserFilesystem_args))
         @ filter (\<lambda>n. startswith n ''address.'') (introspection_names (registry ParserFilesystem_args))
         @ filter (\<lambda>n. n \<noteq> ''clearxml'' \<and> \<not> startswith n ''address.'')
             (introspection_names (registry ParserFilesystem_args))"
proof -
  have h: "list_all (\<lambda>va. cliname va = ''clearxml'' \<or> startswith (cliname va) ''address.''
              \<or> (cliname va \<noteq> [] \<and> CHR ''1'' < hd (cliname va)))
     (registry ParserFilesystem_args)"
    by (simp add: startswith_def registry_def add_arg_def
      VirtCLIArgumentStatic_init_def clearxml_args_def default_args_def truthy_def
      ParserFilesystem_args_def)
  have c: "\<exists>va\<in>set (registry ParserFilesystem_args). cliname va = ''clearxml''"
    by (simp add: registry_def add_arg_def
      VirtCLIArgumentStatic_init_def clearxml_args_def default_args_def truthy_def
      ParserFilesystem_args_def)
  from h have a: "\<forall>va\<in>set (registry ParserFilesystem_args). cliname va = ''clearxml''
      \<or> startswith (cliname va) ''address.'' \<or> (cliname va \<noteq> [] \<and> CHR ''1'' < hd (cliname va))"
    by (simp only: list_all_iff)
  note t = introspection_order [OF a]
  from t have 1: "introspection_names (registry ParserFilesystem_args)
       = filter (\<lambda>n. n = ''clearxml'') (introspection_names (registry ParserFilesystem_args))
         @ filter (\<lambda>n. startswith n ''address.'') (introspection_names (registry ParserFilesystem_args))
         @ filter (\<lambda>n. n \<noteq> ''clearxml'' \<and> \<not> startswith n ''address.'')
             (introspection_names (registry ParserFilesystem_args))"
    by (rule conjunct1)
  from t c have 2: "hd (introspection_names (registry ParserFilesystem_args)) = ''clearxml''"
    by (elim conjE) (erule (1) mp)
  show ?thesis by (intro conjI h 2 1)
qed


text \<open>
  Claim C4 as it is written fails for \<^verbatim>\<open>ParserFilesystem\<close>: the
  \<^verbatim>\<open>address.\<close> options come second, before
  \<^verbatim>\<open>accessmode\<close>, \<^verbatim>\<open>source\<close>, \<^verbatim>\<open>target\<close> and
  \<^verbatim>\<open>type\<close>, and the last name is not one of them.
\<close>

theorem introspection_order_counterexample:
  "introspection_names (registry ParserFilesystem_args)
     = [''clearxml'', ''address.base'', ''address.bus'', ''address.controller'',
        ''address.cssid'', ''address.devno'', ''address.domain'', ''address.function'',
        ''address.iobase'', ''address.irq'', ''address.multifunction'', ''address.port'',
        ''address.reg'', ''address.slot'', ''address.ssid'', ''address.target'',
        ''address.type'', ''address.unit'', ''accessmode'', ''source'', ''target'', ''type'']
   \<and> \<not> startswith (last (introspection_names (registry ParserFilesystem_args))) ''address.''
   \<and> startswith (introspection_names (registry ParserFilesystem_args) ! 1) ''address.''"
  by code_simp

end
